theory Spec2Isabelle
  imports Complex_Main "HOL-Library.Multiset"
begin

section \<open>JavaScript values used by the admin UI\<close>

text \<open>
  Numbers of \<^verbatim>\<open>src/App.jsx\<close> that the panels compute with are integer valued
  (extension ids, page numbers, counts), so a number is an integer or one of the three
  special values a computation of the file can produce: \<^verbatim>\<open>Math.max()\<close> of no
  argument is \<^verbatim>\<open>-Infinity\<close>, a division by zero is \<^verbatim>\<open>Infinity\<close> or
  \<^verbatim>\<open>NaN\<close>, and \<^verbatim>\<open>undefined\<close> converts to \<^verbatim>\<open>NaN\<close>.
  Integers are exact here: the rounding of doubles beyond \<open>2 ^ 53\<close> is not modelled.
\<close>

datatype jsnum = NaN | NegInfinity | PosInfinity | Num int

fun num_max2 :: "jsnum \<Rightarrow> jsnum \<Rightarrow> jsnum" where
  "num_max2 NaN y = NaN"
| "num_max2 x NaN = NaN"
| "num_max2 PosInfinity y = PosInfinity"
| "num_max2 x PosInfinity = PosInfinity"
| "num_max2 NegInfinity y = y"
| "num_max2 x NegInfinity = x"
| "num_max2 (Num a) (Num b) = Num (max a b)"

fun num_min2 :: "jsnum \<Rightarrow> jsnum \<Rightarrow> jsnum" where
  "num_min2 NaN y = NaN"
| "num_min2 x NaN = NaN"
| "num_min2 NegInfinity y = NegInfinity"
| "num_min2 x NegInfinity = NegInfinity"
| "num_min2 PosInfinity y = y"
| "num_min2 x PosInfinity = x"
| "num_min2 (Num a) (Num b) = Num (min a b)"

text \<open>\<^verbatim>\<open>Math.max(...xs)\<close>: the maximum of no number is \<^verbatim>\<open>-Infinity\<close>.\<close>

definition Math_max :: "jsnum list \<Rightarrow> jsnum" where
  "Math_max xs = foldl num_max2 NegInfinity xs"

text \<open>\<^verbatim>\<open>x + k\<close> for an integer \<open>k\<close>.\<close>

fun num_add :: "jsnum \<Rightarrow> int \<Rightarrow> jsnum" where
  "num_add (Num a) k = Num (a + k)"
| "num_add x k = x"

text \<open>\<^verbatim>\<open>x >= y\<close> on numbers: every comparison with \<^verbatim>\<open>NaN\<close> is false.\<close>

fun num_ge :: "jsnum \<Rightarrow> jsnum \<Rightarrow> bool" where
  "num_ge NaN y = False"
| "num_ge x NaN = False"
| "num_ge PosInfinity y = True"
| "num_ge x NegInfinity = True"
| "num_ge NegInfinity y = False"
| "num_ge x PosInfinity = False"
| "num_ge (Num a) (Num b) = (b \<le> a)"

text \<open>The number a property value converts to; an absent property is \<^verbatim>\<open>undefined\<close>.\<close>

fun to_number :: "jsnum option \<Rightarrow> jsnum" where
  "to_number None = NaN"
| "to_number (Some x) = x"

text \<open>
  \<^verbatim>\<open>a === b\<close> on two property values that are numbers or \<^verbatim>\<open>undefined\<close>:
  \<^verbatim>\<open>NaN\<close> equals nothing, itself included.
\<close>

definition strict_eq :: "jsnum option \<Rightarrow> jsnum option \<Rightarrow> bool" where
  "strict_eq a b = (a = b \<and> a \<noteq> Some NaN)"

subsection \<open>Numbers and optional strings inside template literals\<close>

fun digits :: "nat \<Rightarrow> string" where
  "digits n = (if n < 10 then [''0123456789'' ! n]
               else digits (n div 10) @ [''0123456789'' ! (n mod 10)])"

declare digits.simps [simp del]

definition string_of_int :: "int \<Rightarrow> string" where
  "string_of_int i = (if i < 0 then ''-'' @ digits (nat (- i)) else digits (nat i))"

fun string_of_num :: "jsnum \<Rightarrow> string" where
  "string_of_num NaN = ''NaN''"
| "string_of_num NegInfinity = ''-Infinity''"
| "string_of_num PosInfinity = ''Infinity''"
| "string_of_num (Num i) = string_of_int i"

text \<open>\<^verbatim>\<open>`${v}`\<close> for a property that holds a number, a string, or is absent.\<close>

fun tmpl_num :: "jsnum option \<Rightarrow> string" where
  "tmpl_num None = ''undefined''"
| "tmpl_num (Some x) = string_of_num x"

fun tmpl_str :: "string option \<Rightarrow> string" where
  "tmpl_str None = ''undefined''"
| "tmpl_str (Some s) = s"

section \<open>Extensions\<close>

text \<open>
  An extension object \<^verbatim>\<open>{id, tech, name, callerid, voicemail, vm_email}\<close>, with the
  \<^verbatim>\<open>__optimistic\<close> flag of a placeholder row. Each property may be absent
  (\<open>None\<close>): the form of the create dialog has no \<^verbatim>\<open>id\<close>, and only a placeholder
  has \<^verbatim>\<open>__optimistic\<close>.
\<close>

record extension =
  ext_id :: "jsnum option"
  tech :: "string option"
  name :: "string option"
  callerid :: "string option"
  voicemail :: "bool option"
  vm_email :: "string option"
  optimistic :: "bool option"

definition empty_object :: extension where
  "empty_object = \<lparr>ext_id = None, tech = None, name = None, callerid = None,
     voicemail = None, vm_email = None, optimistic = None\<rparr>"

definition override :: "'a option \<Rightarrow> 'a option \<Rightarrow> 'a option" where
  "override x y = (case y of None \<Rightarrow> x | Some v \<Rightarrow> Some v)"

text \<open>The object spread \<^verbatim>\<open>{ ...a, ...b }\<close>: a property of \<open>b\<close> wins.\<close>

definition spread :: "extension \<Rightarrow> extension \<Rightarrow> extension" where
  "spread a b = \<lparr>ext_id = override (ext_id a) (ext_id b),
     tech = override (tech a) (tech b),
     name = override (name a) (name b),
     callerid = override (callerid a) (callerid b),
     voicemail = override (voicemail a) (voicemail b),
     vm_email = override (vm_email a) (vm_email b),
     optimistic = override (optimistic a) (optimistic b)\<rparr>"

text \<open>
  What an array of rows holds: \<^verbatim>\<open>undefined\<close>, or a reference to an extension object.
  The number is the object's identity (every object literal and every clone allocates a
  new one); the code never writes to a property of an existing object, so the properties
  travel with the reference.
\<close>

datatype cell = Undefined | Obj nat extension

text \<open>\<^verbatim>\<open>r === optimistic\<close>: identity of objects.\<close>

fun same_object :: "cell \<Rightarrow> cell \<Rightarrow> bool" where
  "same_object (Obj r _) (Obj r' _) = (r = r')"
| "same_object Undefined Undefined = True"
| "same_object _ _ = False"

datatype js_error = TypeError

text \<open>\<^verbatim>\<open>r.id\<close>: reading a property of \<^verbatim>\<open>undefined\<close> throws.\<close>

fun cell_id :: "cell \<Rightarrow> js_error + jsnum option" where
  "cell_id Undefined = Inl TypeError"
| "cell_id (Obj _ e) = Inr (ext_id e)"

definition MOCK_EXTENSIONS_init :: "extension list" where
  "MOCK_EXTENSIONS_init =
    [\<lparr>ext_id = Some (Num 1001), tech = Some ''PJSIP'', name = Some ''Reception'',
       callerid = Some ''Reception <1001>'', voicemail = Some True,
       vm_email = Some ''reception@example.com'', optimistic = None\<rparr>,
     \<lparr>ext_id = Some (Num 1002), tech = Some ''PJSIP'', name = Some ''Sales'',
       callerid = Some ''Sales <1002>'', voicemail = Some True,
       vm_email = Some ''sales@example.com'', optimistic = None\<rparr>,
     \<lparr>ext_id = Some (Num 1003), tech = Some ''PJSIP'', name = Some ''Support'',
       callerid = Some ''Support <1003>'', voicemail = Some False,
       vm_email = Some '''', optimistic = None\<rparr>]"

section \<open>Audit log\<close>

record audit_input =
  action :: string
  detail :: string

record audit_entry =
  entry_action :: string
  entry_detail :: string
  ts :: int
  user :: string

text \<open>
  \<^verbatim>\<open>setAudit(a => [{ ...entry, ts: Date.now(), user: role }, ...a].slice(0, 200))\<close>;
  \<open>now\<close> is the reading of the clock and \<open>role\<close> the role of the render that made
  the closure.
\<close>

definition stamp :: "string \<Rightarrow> int \<Rightarrow> audit_input \<Rightarrow> audit_entry" where
  "stamp role now entry =
     \<lparr>entry_action = action entry, entry_detail = detail entry, ts = now, user = role\<rparr>"

definition pushAudit :: "string \<Rightarrow> int \<Rightarrow> audit_input \<Rightarrow> audit_entry list \<Rightarrow> audit_entry list" where
  "pushAudit role now entry a = take 200 (stamp role now entry # a)"

text \<open>A sequence of calls, each with the role and the clock reading of its moment.\<close>

fun pushAudits :: "(string \<times> int \<times> audit_input) list \<Rightarrow> audit_entry list \<Rightarrow> audit_entry list" where
  "pushAudits [] a = a"
| "pushAudits ((role, now, entry) # ps) a = pushAudits ps (pushAudit role now entry a)"

section \<open>Application state and the API adapter\<close>

record config =
  baseURL :: string
  apiKey :: string
  useMock :: bool
  ariWS :: string

text \<open>
  The module-level array \<^verbatim>\<open>MOCK_EXTENSIONS\<close> (objects with their identities), the
  allocator of identities, the \<^verbatim>\<open>data\<close> state of the Extensions Panel and the
  \<^verbatim>\<open>audit\<close> state of the root component.
\<close>

record state =
  MOCK_EXTENSIONS :: "(nat \<times> extension) list"
  next_ref :: nat
  data :: "cell list"
  audit :: "audit_entry list"

text \<open>How an awaited call ends. \<open>Resolved None\<close> of a remote call is a reply without a body.\<close>

datatype 'a outcome = Rejected | Resolved 'a

text \<open>The value of \<^verbatim>\<open>res.data\<close> as a fresh object, or \<^verbatim>\<open>undefined\<close>.\<close>

definition remote_reply :: "extension option outcome \<Rightarrow> state \<Rightarrow> cell outcome \<times> state" where
  "remote_reply remote s =
     (case remote of
        Rejected \<Rightarrow> (Rejected, s)
      | Resolved None \<Rightarrow> (Resolved Undefined, s)
      | Resolved (Some e) \<Rightarrow> (Resolved (Obj (next_ref s) e), s\<lparr>next_ref := Suc (next_ref s)\<rparr>))"

fun findIndex :: "('a \<Rightarrow> bool) \<Rightarrow> 'a list \<Rightarrow> nat option" where
  "findIndex P [] = None"
| "findIndex P (x # xs) = (if P x then Some 0 else map_option Suc (findIndex P xs))"

text \<open>\<^verbatim>\<open>structuredClone(MOCK_EXTENSIONS)\<close>: a new object for every row.\<close>

fun clone_rows :: "nat \<Rightarrow> (nat \<times> extension) list \<Rightarrow> cell list" where
  "clone_rows r [] = []"
| "clone_rows r ((_, e) # es) = Obj r e # clone_rows (Suc r) es"

definition apiFetchExtensions :: "config \<Rightarrow> cell list outcome \<Rightarrow> state \<Rightarrow> cell list outcome \<times> state" where
  "apiFetchExtensions cfg remote s =
     (if useMock cfg then
        (Resolved (clone_rows (next_ref s) (MOCK_EXTENSIONS s)),
         s\<lparr>next_ref := next_ref s + length (MOCK_EXTENSIONS s)\<rparr>)
      else (remote, s))"

definition apiCreateExtension :: "config \<Rightarrow> extension \<Rightarrow> extension option outcome \<Rightarrow> state \<Rightarrow> cell outcome \<times> state" where
  "apiCreateExtension cfg payload remote s =
     (if useMock cfg then
        (let nextId = num_add (Math_max (map (\<lambda>e. to_number (ext_id (snd e))) (MOCK_EXTENSIONS s))) 1;
             row = spread (empty_object\<lparr>ext_id := Some nextId,
                      tech := Some (case tech payload of None \<Rightarrow> ''PJSIP''
                                    | Some t \<Rightarrow> if t = [] then ''PJSIP'' else t)\<rparr>) payload;
             r = next_ref s
         in (Resolved (Obj r row),
             s\<lparr>MOCK_EXTENSIONS := MOCK_EXTENSIONS s @ [(r, row)], next_ref := Suc r\<rparr>))
      else remote_reply remote s)"

definition apiUpdateExtension :: "config \<Rightarrow> jsnum option \<Rightarrow> extension \<Rightarrow> extension option outcome \<Rightarrow> state \<Rightarrow> cell outcome \<times> state" where
  "apiUpdateExtension cfg i payload remote s =
     (if useMock cfg then
        (case findIndex (\<lambda>e. strict_eq (ext_id (snd e)) i) (MOCK_EXTENSIONS s) of
           None \<Rightarrow> (Resolved Undefined, s)
         | Some k \<Rightarrow>
             (let row = spread (snd (MOCK_EXTENSIONS s ! k)) payload; r = next_ref s
              in (Resolved (Obj r row),
                  s\<lparr>MOCK_EXTENSIONS := (MOCK_EXTENSIONS s)[k := (r, row)], next_ref := Suc r\<rparr>)))
      else remote_reply remote s)"

definition apiDeleteExtension :: "config \<Rightarrow> jsnum option \<Rightarrow> extension option outcome \<Rightarrow> state \<Rightarrow> unit outcome \<times> state" where
  "apiDeleteExtension cfg i remote s =
     (if useMock cfg then
        (case findIndex (\<lambda>e. strict_eq (ext_id (snd e)) i) (MOCK_EXTENSIONS s) of
           None \<Rightarrow> (Resolved (), s)
         | Some k \<Rightarrow>
             (Resolved (),
              s\<lparr>MOCK_EXTENSIONS := take k (MOCK_EXTENSIONS s) @ drop (Suc k) (MOCK_EXTENSIONS s)\<rparr>))
      else (case remote of Rejected \<Rightarrow> (Rejected, s) | Resolved _ \<Rightarrow> (Resolved (), s)))"

section \<open>Extensions Panel: optimistic mutations with rollback\<close>

text \<open>The read \<^verbatim>\<open>r.id\<close> of a row known to be an object.\<close>

fun id_of :: "cell \<Rightarrow> jsnum option" where
  "id_of Undefined = None"
| "id_of (Obj _ e) = ext_id e"

text \<open>
  \<^verbatim>\<open>d.map(r => (r.id === i ? new : r))\<close> and \<^verbatim>\<open>d.filter(r => r.id !== i)\<close>, the
  updaters given to \<^verbatim>\<open>setData\<close>. A row that is \<^verbatim>\<open>undefined\<close> makes the updater
  throw; the error is not caught by the panel and the model stops there.
\<close>

fun replace_by_id :: "jsnum option \<Rightarrow> cell \<Rightarrow> cell list \<Rightarrow> js_error + cell list" where
  "replace_by_id i new [] = Inr []"
| "replace_by_id i new (r # rs) =
     (case cell_id r of
        Inl e \<Rightarrow> Inl e
      | Inr x \<Rightarrow>
          (case replace_by_id i new rs of
             Inl e \<Rightarrow> Inl e
           | Inr rs' \<Rightarrow> Inr ((if strict_eq x i then new else r) # rs')))"

fun remove_by_id :: "jsnum option \<Rightarrow> cell list \<Rightarrow> js_error + cell list" where
  "remove_by_id i [] = Inr []"
| "remove_by_id i (r # rs) =
     (case cell_id r of
        Inl e \<Rightarrow> Inl e
      | Inr x \<Rightarrow>
          (case remove_by_id i rs of
             Inl e \<Rightarrow> Inl e
           | Inr rs' \<Rightarrow> Inr (if strict_eq x i then rs' else r # rs')))"

subsection \<open>\<^verbatim>\<open>load\<close>\<close>

definition load :: "config \<Rightarrow> cell list outcome \<Rightarrow> state \<Rightarrow> state" where
  "load cfg remote s =
     (case apiFetchExtensions cfg remote s of
        (Resolved rows, s') \<Rightarrow> s'\<lparr>data := rows\<rparr>
      | (Rejected, s') \<Rightarrow> s')"

subsection \<open>\<^verbatim>\<open>createExt\<close>\<close>

text \<open>
  \<^verbatim>\<open>{ id: Math.floor(Math.random() * 1e9), ...form, __optimistic: true }\<close>, allocated
  at identity \<open>r\<close>; \<open>rnd\<close> is the random integer.
\<close>

definition placeholder :: "nat \<Rightarrow> int \<Rightarrow> extension \<Rightarrow> cell" where
  "placeholder r rnd form =
     Obj r ((spread (empty_object\<lparr>ext_id := Some (Num rnd)\<rparr>) form)\<lparr>optimistic := Some True\<rparr>)"

definition create_entry :: "extension \<Rightarrow> audit_input" where
  "create_entry form = \<lparr>action = ''create_extension'',
     detail = tmpl_str (name form) @ '' ('' @ tmpl_str (callerid form) @ '')''\<rparr>"

definition rollback_create_entry :: "extension \<Rightarrow> audit_input" where
  "rollback_create_entry form = \<lparr>action = ''rollback_create_extension'',
     detail = tmpl_str (name form)\<rparr>"

text \<open>Up to the \<^verbatim>\<open>await\<close>: the placeholder goes to the head, one audit entry is pushed.\<close>

definition createExt_begin :: "string \<Rightarrow> int \<Rightarrow> int \<Rightarrow> extension \<Rightarrow> state \<Rightarrow> state" where
  "createExt_begin role rnd t1 form s =
     s\<lparr>next_ref := Suc (next_ref s),
       data := placeholder (next_ref s) rnd form # data s,
       audit := pushAudit role t1 (create_entry form) (audit s)\<rparr>"

text \<open>After the \<^verbatim>\<open>await\<close>: the \<^verbatim>\<open>try\<close> branch or the \<^verbatim>\<open>catch\<close> branch.\<close>

definition createExt_settle :: "string \<Rightarrow> int \<Rightarrow> extension \<Rightarrow> cell \<Rightarrow> cell outcome \<Rightarrow> state \<Rightarrow> state" where
  "createExt_settle role t2 form opt res s =
     (case res of
        Resolved saved \<Rightarrow> s\<lparr>data := map (\<lambda>r. if same_object r opt then saved else r) (data s)\<rparr>
      | Rejected \<Rightarrow>
          s\<lparr>data := filter (\<lambda>r. \<not> same_object r opt) (data s),
            audit := pushAudit role t2 (rollback_create_entry form) (audit s)\<rparr>)"

definition createExt :: "config \<Rightarrow> string \<Rightarrow> int \<Rightarrow> int \<Rightarrow> int \<Rightarrow> extension option outcome \<Rightarrow> extension \<Rightarrow> state \<Rightarrow> state" where
  "createExt cfg role rnd t1 t2 remote form s =
     (let opt = placeholder (next_ref s) rnd form;
          s1 = createExt_begin role rnd t1 form s;
          (res, s2) = apiCreateExtension cfg form remote s1
      in createExt_settle role t2 form opt res s2)"

subsection \<open>\<^verbatim>\<open>saveEdit\<close>\<close>

definition update_entry :: "jsnum option \<Rightarrow> audit_input" where
  "update_entry i = \<lparr>action = ''update_extension'', detail = tmpl_num i\<rparr>"

definition rollback_update_entry :: "jsnum option \<Rightarrow> audit_input" where
  "rollback_update_entry i = \<lparr>action = ''rollback_update_extension'', detail = tmpl_num i\<rparr>"

text \<open>
  \<open>row\<close> is the object being edited (identity and properties); \<open>updated\<close> is the new
  object \<^verbatim>\<open>{ ...row, ...form }\<close>.
\<close>

definition saveEdit_begin :: "string \<Rightarrow> int \<Rightarrow> nat \<times> extension \<Rightarrow> extension \<Rightarrow> state \<Rightarrow> js_error + state" where
  "saveEdit_begin role t1 row form s =
     (let updated = Obj (next_ref s) (spread (snd row) form) in
      case replace_by_id (ext_id (snd row)) updated (data s) of
        Inl e \<Rightarrow> Inl e
      | Inr d \<Rightarrow>
          Inr (s\<lparr>next_ref := Suc (next_ref s), data := d,
                audit := pushAudit role t1 (update_entry (ext_id (snd row))) (audit s)\<rparr>))"

definition saveEdit_settle :: "string \<Rightarrow> int \<Rightarrow> nat \<times> extension \<Rightarrow> cell outcome \<Rightarrow> state \<Rightarrow> js_error + state" where
  "saveEdit_settle role t2 row res s =
     (case res of
        Resolved saved \<Rightarrow>
          (case replace_by_id (ext_id (snd row)) saved (data s) of
             Inl e \<Rightarrow> Inl e
           | Inr d \<Rightarrow> Inr (s\<lparr>data := d\<rparr>))
      | Rejected \<Rightarrow>
          (case replace_by_id (ext_id (snd row)) (Obj (fst row) (snd row)) (data s) of
             Inl e \<Rightarrow> Inl e
           | Inr d \<Rightarrow>
               Inr (s\<lparr>data := d,
                     audit := pushAudit role t2 (rollback_update_entry (ext_id (snd row))) (audit s)\<rparr>)))"

definition saveEdit :: "config \<Rightarrow> string \<Rightarrow> int \<Rightarrow> int \<Rightarrow> extension option outcome \<Rightarrow> nat \<times> extension \<Rightarrow> extension \<Rightarrow> state \<Rightarrow> js_error + state" where
  "saveEdit cfg role t1 t2 remote row form s =
     (case saveEdit_begin role t1 row form s of
        Inl e \<Rightarrow> Inl e
      | Inr s1 \<Rightarrow>
          (let (res, s2) = apiUpdateExtension cfg (ext_id (snd row)) form remote s1
           in saveEdit_settle role t2 row res s2))"

subsection \<open>\<^verbatim>\<open>deleteExt\<close>\<close>

definition delete_entry :: "jsnum option \<Rightarrow> audit_input" where
  "delete_entry i = \<lparr>action = ''delete_extension'', detail = tmpl_num i\<rparr>"

definition rollback_delete_entry :: "jsnum option \<Rightarrow> audit_input" where
  "rollback_delete_entry i = \<lparr>action = ''rollback_delete_extension'', detail = tmpl_num i\<rparr>"

definition deleteExt_begin :: "string \<Rightarrow> int \<Rightarrow> jsnum option \<Rightarrow> state \<Rightarrow> js_error + state" where
  "deleteExt_begin role t1 i s =
     (case remove_by_id i (data s) of
        Inl e \<Rightarrow> Inl e
      | Inr d \<Rightarrow> Inr (s\<lparr>data := d, audit := pushAudit role t1 (delete_entry i) (audit s)\<rparr>))"

definition deleteExt_settle :: "string \<Rightarrow> int \<Rightarrow> jsnum option \<Rightarrow> cell list \<Rightarrow> unit outcome \<Rightarrow> state \<Rightarrow> state" where
  "deleteExt_settle role t2 i prev res s =
     (case res of
        Resolved _ \<Rightarrow> s
      | Rejected \<Rightarrow>
          s\<lparr>data := prev, audit := pushAudit role t2 (rollback_delete_entry i) (audit s)\<rparr>)"

text \<open>\<open>yes\<close> is the answer to \<^verbatim>\<open>confirm\<close>; \<open>prev\<close> is the list held when the call starts.\<close>

definition deleteExt :: "config \<Rightarrow> string \<Rightarrow> int \<Rightarrow> int \<Rightarrow> extension option outcome \<Rightarrow> bool \<Rightarrow> jsnum option \<Rightarrow> state \<Rightarrow> js_error + state" where
  "deleteExt cfg role t1 t2 remote yes i s =
     (if \<not> yes then Inr s
      else
        (let prev = data s in
         case deleteExt_begin role t1 i s of
           Inl e \<Rightarrow> Inl e
         | Inr s1 \<Rightarrow>
             (let (res, s2) = apiDeleteExtension cfg i remote s1
              in Inr (deleteExt_settle role t2 i prev res s2))))"

subsection \<open>The dialog and the buttons that call the three operations\<close>

text \<open>
  \<^verbatim>\<open>ExtensionModal\<close> starts from \<^verbatim>\<open>initial\<close> (the row being edited) or from the
  default form, and each input replaces the form by \<^verbatim>\<open>{ ...form, field: value }\<close>.
  There is no input for \<^verbatim>\<open>id\<close>.
\<close>

definition default_form :: extension where
  "default_form = empty_object\<lparr>tech := Some ''PJSIP'', name := Some [],
     callerid := Some [], voicemail := Some False, vm_email := Some []\<rparr>"

datatype change = SetTech string | SetName string | SetCallerid string
  | SetVoicemail bool | SetVmEmail string

fun setForm :: "extension \<Rightarrow> change \<Rightarrow> extension" where
  "setForm form (SetTech v) = form\<lparr>tech := Some v\<rparr>"
| "setForm form (SetName v) = form\<lparr>name := Some v\<rparr>"
| "setForm form (SetCallerid v) = form\<lparr>callerid := Some v\<rparr>"
| "setForm form (SetVoicemail v) = form\<lparr>voicemail := Some v\<rparr>"
| "setForm form (SetVmEmail v) = form\<lparr>vm_email := Some v\<rparr>"

definition ExtensionModal_form :: "extension option \<Rightarrow> change list \<Rightarrow> extension" where
  "ExtensionModal_form initial changes =
     foldl setForm (case initial of None \<Rightarrow> default_form | Some row \<Rightarrow> row) changes"

text \<open>
  What the user can do in the panel: \<^verbatim>\<open>New\<close> and submit (the random id of the
  placeholder comes with it), \<^verbatim>\<open>Edit\<close> on the \<open>k\<close>-th row of the list and submit,
  \<^verbatim>\<open>Delete\<close> on the \<open>k\<close>-th row and confirm. A list that holds \<^verbatim>\<open>undefined\<close> cannot
  be rendered (\<^verbatim>\<open>r.id\<close> throws), so such a row has no buttons.
\<close>

datatype ui_op = New int "change list" | Edit nat "change list" | Delete nat

fun panel_step :: "config \<Rightarrow> string \<Rightarrow> int \<Rightarrow> extension option outcome \<Rightarrow> ui_op \<Rightarrow> state \<Rightarrow> js_error + state" where
  "panel_step cfg role now remote (New rnd changes) s =
     Inr (createExt cfg role rnd now now remote (ExtensionModal_form None changes) s)"
| "panel_step cfg role now remote (Edit k changes) s =
     (if k < length (data s) then
        (case data s ! k of
           Undefined \<Rightarrow> Inl TypeError
         | Obj r e \<Rightarrow> saveEdit cfg role now now remote (r, e) (ExtensionModal_form (Some e) changes) s)
      else Inr s)"
| "panel_step cfg role now remote (Delete k) s =
     (if k < length (data s) then
        (case data s ! k of
           Undefined \<Rightarrow> Inl TypeError
         | Obj r e \<Rightarrow> deleteExt cfg role now now remote True (ext_id e) s)
      else Inr s)"

fun panel_run :: "config \<Rightarrow> string \<Rightarrow> (int \<times> extension option outcome \<times> ui_op) list \<Rightarrow> state \<Rightarrow> js_error + state" where
  "panel_run cfg role [] s = Inr s"
| "panel_run cfg role ((now, remote, x) # xs) s =
     (case panel_step cfg role now remote x s of
        Inl e \<Rightarrow> Inl e
      | Inr s' \<Rightarrow> panel_run cfg role xs s')"

text \<open>The module as loaded, before the panel's first \<^verbatim>\<open>load\<close>.\<close>

definition initial_state :: state where
  "initial_state = \<lparr>MOCK_EXTENSIONS = zip [0..<length MOCK_EXTENSIONS_init] MOCK_EXTENSIONS_init,
     next_ref = length MOCK_EXTENSIONS_init, data = [], audit = []\<rparr>"

text \<open>The records shown and the records stored, without identities and order.\<close>

fun contents :: "cell \<Rightarrow> extension option" where
  "contents Undefined = None"
| "contents (Obj _ e) = Some e"

definition shown :: "state \<Rightarrow> extension option multiset" where
  "shown s = mset (map contents (data s))"

definition stored :: "state \<Rightarrow> extension option multiset" where
  "stored s = mset (map (\<lambda>e. Some (snd e)) (MOCK_EXTENSIONS s))"

text \<open>Every object of the list was allocated before the next identity.\<close>

fun allocated :: "nat \<Rightarrow> cell \<Rightarrow> bool" where
  "allocated n Undefined = True"
| "allocated n (Obj r _) = (r < n)"

definition refs_allocated :: "state \<Rightarrow> bool" where
  "refs_allocated s = list_all (allocated (next_ref s)) (data s)"

section \<open>Realtime status feed\<close>

text \<open>
  A parsed JSON value; an object is the list of its properties. A message is the result
  of \<^verbatim>\<open>JSON.parse(evt.data)\<close>: \<open>None\<close> when the parser throws.
\<close>

datatype json = JNull | JBool bool | JNum rat | JStr string | JArr "json list"
  | JObj "(string \<times> json) list"

text \<open>
  \<^verbatim>\<open>msg.trunks\<close>, \<^verbatim>\<open>msg.queues\<close>: reading a property of \<^verbatim>\<open>null\<close> throws; a
  value that is not an object has neither property (\<open>None\<close> is \<^verbatim>\<open>undefined\<close>).
\<close>

fun get_prop :: "json \<Rightarrow> string \<Rightarrow> js_error + json option" where
  "get_prop JNull k = Inl TypeError"
| "get_prop (JObj kvs) k = Inr (map_of kvs k)"
| "get_prop _ k = Inr None"

fun truthy :: "json option \<Rightarrow> bool" where
  "truthy None = False"
| "truthy (Some JNull) = False"
| "truthy (Some (JBool b)) = b"
| "truthy (Some (JNum x)) = (x \<noteq> 0)"
| "truthy (Some (JStr s)) = (s \<noteq> [])"
| "truthy (Some (JArr _)) = True"
| "truthy (Some (JObj _)) = True"

definition MOCK_STATUS :: json where
  "MOCK_STATUS = JObj
     [(''trunks'', JArr
        [JObj [(''name'', JStr ''SIP Trunk AU-East''), (''state'', JStr ''Registered''), (''latency_ms'', JNum 38)],
         JObj [(''name'', JStr ''SIP Trunk AU-West''), (''state'', JStr ''Reachable''), (''latency_ms'', JNum 182)]]),
      (''queues'', JArr
        [JObj [(''name'', JStr ''600 Support''), (''agents'', JNum 4), (''logged_in'', JNum 3), (''waiting'', JNum 0)],
         JObj [(''name'', JStr ''700 Sales''), (''agents'', JNum 6), (''logged_in'', JNum 5), (''waiting'', JNum 1)]])]"

text \<open>
  \<^verbatim>\<open>ws.onmessage\<close>: \<^verbatim>\<open>if (msg.trunks || msg.queues) setStatus(msg)\<close> inside
  \<^verbatim>\<open>try { ... } catch { }\<close>. The result is the status snapshot after the message.
\<close>

definition onmessage :: "json option \<Rightarrow> json \<Rightarrow> json" where
  "onmessage parsed status =
     (case parsed of
        None \<Rightarrow> status
      | Some msg \<Rightarrow>
          (case get_prop msg ''trunks'' of
             Inl _ \<Rightarrow> status
           | Inr t \<Rightarrow>
               if truthy t then msg
               else (case get_prop msg ''queues'' of
                       Inl _ \<Rightarrow> status
                     | Inr q \<Rightarrow> if truthy q then msg else status)))"

text \<open>\<^verbatim>\<open>status.trunks\<close> and \<^verbatim>\<open>status.queues\<close> as the Status Panel reads them.\<close>

definition trunks_of :: "json \<Rightarrow> js_error + json option" where
  "trunks_of status = get_prop status ''trunks''"

definition queues_of :: "json \<Rightarrow> js_error + json option" where
  "queues_of status = get_prop status ''queues''"

section \<open>Call records: CSV export and pagination\<close>

text \<open>A property value of a call record, and a record as the list of its properties.\<close>

datatype field = FUndefined | FNull | FBool bool | FNum int | FStr string

type_synonym call_record = "(string \<times> field) list"

text \<open>
  The properties are listed in the order of \<^verbatim>\<open>Object.keys\<close> (the names of a call record
  are not integers, so that is the order of insertion), each name once.
\<close>

text \<open>\<^verbatim>\<open>r[h]\<close>\<close>

definition get_field :: "call_record \<Rightarrow> string \<Rightarrow> field" where
  "get_field r h = (case map_of r h of None \<Rightarrow> FUndefined | Some v \<Rightarrow> v)"

text \<open>\<^verbatim>\<open>`${v ?? ""}`\<close>\<close>

fun tmpl_field :: "field \<Rightarrow> string" where
  "tmpl_field FUndefined = []"
| "tmpl_field FNull = []"
| "tmpl_field (FBool b) = (if b then ''true'' else ''false'')"
| "tmpl_field (FNum i) = string_of_int i"
| "tmpl_field (FStr s) = s"

text \<open>\<^verbatim>\<open>.replace(/"/g, '""')\<close>\<close>

definition replace_quotes :: "string \<Rightarrow> string" where
  "replace_quotes s = concat (map (\<lambda>c. if c = CHR 0x22 then [CHR 0x22, CHR 0x22] else [c]) s)"

definition escape :: "field \<Rightarrow> string" where
  "escape v =
     (let s = tmpl_field v in
      if CHR '','' \<in> set s \<or> CHR 0x0A \<in> set s
      then [CHR 0x22] @ replace_quotes s @ [CHR 0x22]
      else s)"

fun join :: "string \<Rightarrow> string list \<Rightarrow> string" where
  "join sep [] = []"
| "join sep [x] = x"
| "join sep (x # y # ys) = x @ sep @ join sep (y # ys)"

text \<open>The text that \<^verbatim>\<open>downloadCsv\<close> puts into the Blob it offers for download.\<close>

definition downloadCsv :: "call_record list \<Rightarrow> string" where
  "downloadCsv rs =
     (let headers = (case rs of [] \<Rightarrow> [] | r # _ \<Rightarrow> map fst r) in
      join [CHR 0x0A]
        (join '','' headers # map (\<lambda>r. join '','' (map (\<lambda>h. escape (get_field r h)) headers)) rs))"

subsection \<open>The mock call records\<close>

definition padStart2 :: "string \<Rightarrow> string" where
  "padStart2 s = replicate (2 - length s) CHR ''0'' @ s"

definition mock_call :: "nat \<Rightarrow> call_record" where
  "mock_call i =
     [(''id'', FStr (''c'' @ digits (i + 1))),
      (''src'', FStr (if i mod 3 = 0 then ''0400123456'' else digits (1001 + i mod 5))),
      (''dst'', FStr (digits (1001 + i mod 7))),
      (''disposition'', FStr (if i mod 4 = 0 then ''NO ANSWER'' else ''ANSWERED'')),
      (''duration'', FNum (int (i mod 5 * 47))),
      (''calldate'', FStr (''2025-08-'' @ padStart2 (digits (1 + i mod 28)) @ '' ''
          @ padStart2 (digits (8 + i mod 10)) @ '':0'' @ digits (i mod 6) @ '':1'' @ digits (i mod 9)))]"

definition MOCK_CALLS :: "call_record list" where
  "MOCK_CALLS = map mock_call [0..<137]"

subsection \<open>\<^verbatim>\<open>apiFetchCalls\<close>\<close>

record calls_query =
  from_date :: string
  to_date :: string
  ext :: string
  page :: int
  pageSize :: int

record calls_page =
  rows :: "call_record list"
  total_rows :: int

text \<open>
  The time value of \<^verbatim>\<open>new Date(v)\<close>, \<open>None\<close> for an invalid date. How a string is read
  depends on the browser and its time zone: \<open>Date_parse\<close> is that reading.
\<close>

fun date_of_field :: "(string \<Rightarrow> int option) \<Rightarrow> field \<Rightarrow> int option" where
  "date_of_field Date_parse FUndefined = None"
| "date_of_field Date_parse FNull = Some 0"
| "date_of_field Date_parse (FBool b) = Some (if b then 1 else 0)"
| "date_of_field Date_parse (FNum n) = (if \<bar>n\<bar> \<le> 8640000000000000 then Some n else None)"
| "date_of_field Date_parse (FStr s) = Date_parse s"

text \<open>\<^verbatim>\<open>a >= b\<close> on two dates: false when either is invalid.\<close>

fun date_ge :: "int option \<Rightarrow> int option \<Rightarrow> bool" where
  "date_ge (Some a) (Some b) = (b \<le> a)"
| "date_ge _ _ = False"

definition call_matches :: "(string \<Rightarrow> int option) \<Rightarrow> calls_query \<Rightarrow> call_record \<Rightarrow> bool" where
  "call_matches Date_parse q c =
     ((ext q = [] \<or> get_field c ''src'' = FStr (ext q) \<or> get_field c ''dst'' = FStr (ext q))
      \<and> (from_date q = []
          \<or> date_ge (date_of_field Date_parse (get_field c ''calldate'')) (Date_parse (from_date q)))
      \<and> (to_date q = []
          \<or> date_ge (Date_parse (to_date q)) (date_of_field Date_parse (get_field c ''calldate''))))"

text \<open>\<^verbatim>\<open>xs.slice(start, stop)\<close> with integer arguments: a negative index counts from the end.\<close>

definition js_slice :: "'a list \<Rightarrow> int \<Rightarrow> int \<Rightarrow> 'a list" where
  "js_slice xs start stop =
     (let len = int (length xs);
          k = (if start < 0 then max (len + start) 0 else min start len);
          fin = (if stop < 0 then max (len + stop) 0 else min stop len)
      in take (nat (fin - k)) (drop (nat k) xs))"

definition apiFetchCalls :: "(string \<Rightarrow> int option) \<Rightarrow> config \<Rightarrow> calls_query \<Rightarrow> calls_page outcome \<Rightarrow> calls_page outcome" where
  "apiFetchCalls Date_parse cfg q remote =
     (if useMock cfg then
        (let rs = filter (call_matches Date_parse q) MOCK_CALLS;
             total = int (length rs);
             start = (page q - 1) * pageSize q
         in Resolved \<lparr>rows = js_slice rs start (start + pageSize q), total_rows = total\<rparr>)
      else remote)"

subsection \<open>The pager of the Call Logs Panel\<close>

text \<open>\<^verbatim>\<open>Math.ceil(total / pageSize)\<close>\<close>

definition Math_ceil_div :: "int \<Rightarrow> int \<Rightarrow> jsnum" where
  "Math_ceil_div t n =
     (if n = 0 then (if t = 0 then NaN else if 0 < t then PosInfinity else NegInfinity)
      else Num \<lceil>(of_int t :: rat) / of_int n\<rceil>)"

definition totalPages :: "int \<Rightarrow> int \<Rightarrow> jsnum" where
  "totalPages t n = Math_max [Num 1, Math_ceil_div t n]"

text \<open>\<^verbatim>\<open>disabled={page >= totalPages}\<close> of the Next button.\<close>

definition next_disabled :: "int \<Rightarrow> int \<Rightarrow> int \<Rightarrow> bool" where
  "next_disabled t n p = num_ge (Num p) (totalPages t n)"

text \<open>\<^verbatim>\<open>setPage(p => Math.min(totalPages, p + 1))\<close>\<close>

definition next_click :: "int \<Rightarrow> int \<Rightarrow> int \<Rightarrow> jsnum" where
  "next_click t n p = num_min2 (totalPages t n) (Num (p + 1))"

section \<open>Concrete configurations and states\<close>

text \<open>
  Inputs at which the properties below are evaluated. An adapter call takes the reply of
  the remote server as its \<open>remote\<close> argument; in mock mode that reply is not read.
\<close>

definition live_cfg :: config where
  "live_cfg = \<lparr>baseURL = ''https://pbx.example.com/admin/api'', apiKey = ''token'',
     useMock = False, ariWS = []\<rparr>"

definition mock_cfg :: config where
  "mock_cfg = \<lparr>baseURL = ''https://your-freepbx17/api'', apiKey = [], useMock = True, ariWS = []\<rparr>"

text \<open>The panel after its first \<^verbatim>\<open>load\<close> in mock mode.\<close>

definition loaded_state :: state where
  "loaded_state = load mock_cfg Rejected initial_state"

text \<open>The first mock extension; the loaded panel shows it as its first row, \<open>Obj 3\<close>.\<close>

definition reception :: extension where
  "reception = MOCK_EXTENSIONS_init ! 0"

text \<open>A panel whose first row is no longer in the store.\<close>

definition stale_state :: state where
  "stale_state = loaded_state\<lparr>MOCK_EXTENSIONS := tl (MOCK_EXTENSIONS loaded_state)\<rparr>"

text \<open>Parsed realtime messages: one with \<^verbatim>\<open>trunks\<close> only, one with neither key.\<close>

definition trunks_only_msg :: json where
  "trunks_only_msg = JObj [(''trunks'', JArr
     [JObj [(''name'', JStr ''SIP Trunk AU-East''), (''state'', JStr ''Unreachable''), (''latency_ms'', JNum 900)]])]"

definition ping_msg :: json where
  "ping_msg = JObj [(''type'', JStr ''ping''), (''seq'', JNum 7)]"

text \<open>The caller id \<^verbatim>\<open>"Bob" <1001>\<close>.\<close>

definition quoted_caller :: string where
  "quoted_caller = [CHR 0x22] @ ''Bob'' @ [CHR 0x22] @ '' <1001>''"

text \<open>
  Queries without a date filter, so that no date is parsed: the first page of all calls,
  and the calls of an extension that has none.
\<close>

definition no_dates :: "string \<Rightarrow> int option" where
  "no_dates s = None"

definition first_page :: calls_query where
  "first_page = \<lparr>from_date = [], to_date = [], ext = [], page = 1, pageSize = 20\<rparr>"

definition no_match_query :: calls_query where
  "no_match_query = \<lparr>from_date = [], to_date = [], ext = ''9999'', page = 1, pageSize = 20\<rparr>"

text \<open>
  The list shows the store: no row is \<^verbatim>\<open>undefined\<close>, the records shown are the records
  stored, the stored ids are integers and pairwise distinct, and every object of the list
  was allocated before the next identity.
\<close>

fun is_Num :: "jsnum option \<Rightarrow> bool" where
  "is_Num (Some (Num _)) = True"
| "is_Num _ = False"

fun is_New :: "ui_op \<Rightarrow> bool" where
  "is_New (New _ _) = True"
| "is_New _ = False"

definition in_sync :: "state \<Rightarrow> bool" where
  "in_sync s =
     (Undefined \<notin> set (data s) \<and> shown s = stored s
      \<and> distinct (map (\<lambda>x. ext_id (snd x)) (MOCK_EXTENSIONS s))
      \<and> list_all (\<lambda>x. is_Num (ext_id (snd x))) (MOCK_EXTENSIONS s)
      \<and> refs_allocated s)"

fun opt_id :: "extension option \<Rightarrow> jsnum option" where
  "opt_id None = None"
| "opt_id (Some e) = ext_id e"

text \<open>A run in which the store is not empty whenever an extension is created.\<close>

fun store_nonempty_at_new :: "config \<Rightarrow> string \<Rightarrow> (int \<times> extension option outcome \<times> ui_op) list \<Rightarrow> state \<Rightarrow> bool" where
  "store_nonempty_at_new cfg role [] s = True"
| "store_nonempty_at_new cfg role ((now, remote, x) # xs) s =
     ((is_New x \<longrightarrow> MOCK_EXTENSIONS s \<noteq> [])
      \<and> (case panel_step cfg role now remote x s of
            Inl _ \<Rightarrow> True
          | Inr s' \<Rightarrow> store_nonempty_at_new cfg role xs s'))"

text \<open>
  Delete the three mock extensions, create two extensions, delete the first row shown.
  In mock mode the reply of a remote server is not read.
\<close>

definition empty_store_run :: "(int \<times> extension option outcome \<times> ui_op) list" where
  "empty_store_run =
     [(1, Resolved None, Delete 0), (2, Resolved None, Delete 0), (3, Resolved None, Delete 0),
      (4, Resolved None, New 111 [SetName ''Lobby'']),
      (5, Resolved None, New 222 [SetName ''Lab'']),
      (6, Resolved None, Delete 0)]"

definition lobby_row :: extension where
  "lobby_row = default_form\<lparr>ext_id := Some NegInfinity, name := Some ''Lobby''\<rparr>"

definition lab_row :: extension where
  "lab_row = default_form\<lparr>ext_id := Some NegInfinity, name := Some ''Lab''\<rparr>"

text \<open>A list in which two rows bear one id, the edited row first.\<close>

definition twin_state :: state where
  "twin_state = \<lparr>MOCK_EXTENSIONS = [(7, lobby_row), (9, lab_row)], next_ref = 10,
     data = [Obj 9 lab_row, Obj 7 lobby_row], audit = []\<rparr>"

section \<open>Properties of the audit log\<close>

lemma take_append_take_same: "take n (xs @ take n ys) = take n (xs @ ys)"
  by (simp add: min_def)

lemma pushAudits_general:
  "length a \<le> 200 \<Longrightarrow>
   pushAudits ps a = take 200 (rev (map (\<lambda>(role, now, e). stamp role now e) ps) @ a)"
proof (induction ps arbitrary: a)
  case Nil
  then show ?case by simp
next
  case (Cons p ps)
  obtain role now e where p: "p = (role, now, e)" by (cases p) auto
  have len: "length (pushAudit role now e a) \<le> 200" by (simp add: pushAudit_def)
  have "pushAudits (p # ps) a = pushAudits ps (pushAudit role now e a)" by (simp add: p)
  also have "\<dots> = take 200 (rev (map (\<lambda>(role, now, e). stamp role now e) ps) @ pushAudit role now e a)"
    by (rule Cons.IH [OF len])
  also have "\<dots> = take 200 (rev (map (\<lambda>(role, now, e). stamp role now e) ps) @ stamp role now e # a)"
    unfolding pushAudit_def by (rule take_append_take_same)
  finally show ?case by (simp add: p)
qed

lemma two_pushes:
  "pushAudit role t2 b (pushAudit role t1 a l) = take 200 (stamp role t2 b # stamp role t1 a # l)"
  by (simp add: pushAudit_def)

text \<open>
  Claim C9. A call of \<^verbatim>\<open>pushAudit\<close> leaves at most 200 entries, puts the new entry,
  stamped with the clock reading and the role, at the head, and keeps the first 199 of
  the old entries behind it unchanged and in order. Starting from the empty log, any
  sequence of calls yields the stamped entries newest first, cut to the 200 most recent.
\<close>

theorem pushAudit_capped_newest_first:
  "length (pushAudit role now e a) \<le> 200
   \<and> pushAudit role now e a = stamp role now e # take 199 a
   \<and> ts (stamp role now e) = now \<and> user (stamp role now e) = role
   \<and> entry_action (stamp role now e) = action e \<and> entry_detail (stamp role now e) = detail e
   \<and> pushAudits ps [] = take 200 (rev (map (\<lambda>(role, now, e). stamp role now e) ps))
   \<and> length (pushAudits ps []) \<le> 200"
  using pushAudits_general [of "[]" ps]
  by (simp add: pushAudit_def stamp_def)

section \<open>Properties of the optimistic mutations\<close>

lemma replace_by_id_Inr:
  "replace_by_id i new d = Inr d' \<Longrightarrow>
   Undefined \<notin> set d \<and> d' = map (\<lambda>r. if strict_eq (id_of r) i then new else r) d"
proof (induction d arbitrary: d')
  case Nil
  then show ?case by simp
next
  case (Cons r rs)
  then show ?case
    by (cases r) (auto split: sum.splits)
qed

lemma replace_by_id_objs:
  "Undefined \<notin> set d \<Longrightarrow>
   replace_by_id i new d = Inr (map (\<lambda>r. if strict_eq (id_of r) i then new else r) d)"
proof (induction d)
  case Nil
  then show ?case by simp
next
  case (Cons r rs)
  then show ?case by (cases r) auto
qed

lemma remove_by_id_Inr:
  "remove_by_id i d = Inr d' \<Longrightarrow>
   Undefined \<notin> set d \<and> d' = filter (\<lambda>r. \<not> strict_eq (id_of r) i) d"
proof (induction d arbitrary: d')
  case Nil
  then show ?case by simp
next
  case (Cons r rs)
  then show ?case
    by (cases r) (auto split: sum.splits)
qed

lemma remove_by_id_objs:
  "Undefined \<notin> set d \<Longrightarrow>
   remove_by_id i d = Inr (filter (\<lambda>r. \<not> strict_eq (id_of r) i) d)"
proof (induction d)
  case Nil
  then show ?case by simp
next
  case (Cons r rs)
  then show ?case by (cases r) auto
qed

lemma loaded_state_eq:
  "loaded_state =
     \<lparr>MOCK_EXTENSIONS = [(0, MOCK_EXTENSIONS_init ! 0), (1, MOCK_EXTENSIONS_init ! 1),
                         (2, MOCK_EXTENSIONS_init ! 2)],
      next_ref = 6,
      data = [Obj 3 (MOCK_EXTENSIONS_init ! 0), Obj 4 (MOCK_EXTENSIONS_init ! 1),
              Obj 5 (MOCK_EXTENSIONS_init ! 2)],
      audit = []\<rparr>"
  by (simp add: loaded_state_def load_def apiFetchExtensions_def mock_cfg_def initial_state_def
      MOCK_EXTENSIONS_init_def upt_rec)

lemma create_rejected:
  "fst (apiCreateExtension cfg form remote s) = Rejected \<Longrightarrow>
   apiCreateExtension cfg form remote s = (Rejected, s)"
  by (auto simp: apiCreateExtension_def remote_reply_def Let_def
      split: if_splits outcome.splits option.splits)

lemma update_rejected:
  "fst (apiUpdateExtension cfg i form remote s) = Rejected \<Longrightarrow>
   apiUpdateExtension cfg i form remote s = (Rejected, s)"
  by (auto simp: apiUpdateExtension_def remote_reply_def Let_def
      split: if_splits outcome.splits option.splits)

lemma delete_rejected:
  "fst (apiDeleteExtension cfg i remote s) = Rejected \<Longrightarrow>
   apiDeleteExtension cfg i remote s = (Rejected, s)"
  by (auto simp: apiDeleteExtension_def split: if_splits outcome.splits option.splits)

lemma filter_fresh_object:
  "list_all (allocated n) d \<Longrightarrow> filter (\<lambda>c. \<not> same_object c (Obj n e)) d = d"
proof (induction d)
  case Nil
  then show ?case by simp
next
  case (Cons c cs)
  then show ?case by (cases c) auto
qed

text \<open>
  Claim C3. When the call of \<^verbatim>\<open>createExt\<close> to the adapter rejects, the placeholder
  (found by identity) is taken out again, so the list is the list from before the call;
  the store is untouched; and the log gains two entries, the \<^verbatim>\<open>create_extension\<close>
  entry pushed before the call and one \<^verbatim>\<open>rollback_create_extension\<close> entry in front
  of it (the log cut to 200). The state differs from the one before only in the
  allocator and the log.
\<close>

theorem createExt_rejected_rolls_back:
  assumes rej: "fst (apiCreateExtension cfg form remote (createExt_begin role rnd t1 form s)) = Rejected"
      and fresh: "refs_allocated s"
  shows "createExt cfg role rnd t1 t2 remote form s =
           s\<lparr>next_ref := Suc (next_ref s),
             audit := take 200 (stamp role t2 (rollback_create_entry form)
                                # stamp role t1 (create_entry form) # audit s)\<rparr>
         \<and> action (rollback_create_entry form) = ''rollback_create_extension''
         \<and> action (create_entry form) = ''create_extension''"
proof -
  have api: "apiCreateExtension cfg form remote (createExt_begin role rnd t1 form s)
             = (Rejected, createExt_begin role rnd t1 form s)"
    by (rule create_rejected [OF rej])
  have keep: "filter (\<lambda>c. \<not> same_object c (placeholder (next_ref s) rnd form)) (data s) = data s"
    using fresh unfolding refs_allocated_def placeholder_def by (rule filter_fresh_object)
  have "createExt cfg role rnd t1 t2 remote form s =
          createExt_settle role t2 form (placeholder (next_ref s) rnd form) Rejected
            (createExt_begin role rnd t1 form s)"
    by (simp add: createExt_def api)
  also have "\<dots> = s\<lparr>next_ref := Suc (next_ref s),
             audit := take 200 (stamp role t2 (rollback_create_entry form)
                                # stamp role t1 (create_entry form) # audit s)\<rparr>"
    using keep by (simp add: createExt_settle_def createExt_begin_def two_pushes placeholder_def)
  finally show ?thesis
    by (simp add: rollback_create_entry_def create_entry_def)
qed

theorem createExt_rejected_rolls_back_witness:
  "fst (apiCreateExtension live_cfg default_form Rejected
          (createExt_begin ''admin'' 424242 10 default_form loaded_state)) = Rejected
   \<and> refs_allocated loaded_state
   \<and> data (createExt live_cfg ''admin'' 424242 10 11 Rejected default_form loaded_state)
       = data loaded_state
   \<and> map entry_action
        (audit (createExt live_cfg ''admin'' 424242 10 11 Rejected default_form loaded_state))
       = [''rollback_create_extension'', ''create_extension'']"
proof -
  have h1: "fst (apiCreateExtension live_cfg default_form Rejected
          (createExt_begin ''admin'' 424242 10 default_form loaded_state)) = Rejected"
    by (simp add: apiCreateExtension_def live_cfg_def remote_reply_def)
  have h2: "refs_allocated loaded_state"
    by (simp add: refs_allocated_def loaded_state_eq)
  show ?thesis
    using h1 h2 createExt_rejected_rolls_back [OF h1 h2, of 11]
    by (simp add: loaded_state_eq stamp_def)
qed

lemma objs_after_replace:
  "Undefined \<notin> set d \<Longrightarrow> Undefined \<notin> set (map (\<lambda>c. if strict_eq (id_of c) i then Obj r e else c) d)"
  by auto

lemma snapshot_rows:
  assumes keep: "id_of updated = i"
  shows "map (\<lambda>c. if strict_eq (id_of c) i then prev else c)
           (map (\<lambda>c. if strict_eq (id_of c) i then updated else c) d)
         = map (\<lambda>c. if strict_eq (id_of c) i then prev else c) d"
proof -
  have "(if strict_eq (id_of (if strict_eq (id_of c) i then updated else c)) i then prev
         else (if strict_eq (id_of c) i then updated else c))
        = (if strict_eq (id_of c) i then prev else c)" for c
  proof (cases "strict_eq (id_of c) i")
    case True
    then have "strict_eq i i" by (auto simp: strict_eq_def)
    with True keep show ?thesis by simp
  next
    case False
    then show ?thesis by simp
  qed
  then show ?thesis by simp
qed

lemma saveEdit_rejected_state:
  assumes beg: "saveEdit_begin role t1 (r, e) form s = Inr s1"
      and rej: "fst (apiUpdateExtension cfg (ext_id e) form remote s1) = Rejected"
      and keep: "ext_id (spread e form) = ext_id e"
  shows "saveEdit cfg role t1 t2 remote (r, e) form s =
           Inr (s\<lparr>next_ref := Suc (next_ref s),
                  data := map (\<lambda>c. if strict_eq (id_of c) (ext_id e) then Obj r e else c) (data s),
                  audit := take 200 (stamp role t2 (rollback_update_entry (ext_id e))
                                     # stamp role t1 (update_entry (ext_id e)) # audit s)\<rparr>)"
proof -
  let ?upd = "Obj (next_ref s) (spread e form)"
  let ?d1 = "map (\<lambda>c. if strict_eq (id_of c) (ext_id e) then ?upd else c) (data s)"
  let ?d2 = "map (\<lambda>c. if strict_eq (id_of c) (ext_id e) then Obj r e else c) (data s)"
  obtain d1 where d1: "replace_by_id (ext_id e) ?upd (data s) = Inr d1"
    using beg by (auto simp: saveEdit_begin_def Let_def split: sum.splits)
  from replace_by_id_Inr [OF d1] have objs: "Undefined \<notin> set (data s)" and d1_eq: "d1 = ?d1"
    by simp_all
  have s1: "s1 = s\<lparr>next_ref := Suc (next_ref s), data := ?d1,
                   audit := pushAudit role t1 (update_entry (ext_id e)) (audit s)\<rparr>"
    using beg d1 d1_eq by (simp add: saveEdit_begin_def Let_def)
  have api: "apiUpdateExtension cfg (ext_id e) form remote s1 = (Rejected, s1)"
    by (rule update_rejected [OF rej])
  have objs1: "Undefined \<notin> set ?d1"
    using objs by (rule objs_after_replace)
  have "id_of ?upd = ext_id e" using keep by simp
  then have "map (\<lambda>c. if strict_eq (id_of c) (ext_id e) then Obj r e else c) ?d1 = ?d2"
    by (rule snapshot_rows)
  then have restore: "replace_by_id (ext_id e) (Obj r e) ?d1 = Inr ?d2"
    by (simp only: replace_by_id_objs [OF objs1])
  have "saveEdit cfg role t1 t2 remote (r, e) form s = saveEdit_settle role t2 (r, e) Rejected s1"
    by (simp add: saveEdit_def beg api)
  also have "\<dots> = Inr (s\<lparr>next_ref := Suc (next_ref s), data := ?d2,
                  audit := take 200 (stamp role t2 (rollback_update_entry (ext_id e))
                                     # stamp role t1 (update_entry (ext_id e)) # audit s)\<rparr>)"
    using restore by (simp add: saveEdit_settle_def s1 two_pushes)
  finally show ?thesis .
qed

text \<open>
  Claim C4. When the call of \<^verbatim>\<open>saveEdit\<close> to the adapter rejects, every row of the
  list that bears the id of the edited row \<open>Obj r e\<close> is the snapshot \<open>Obj r e\<close> taken
  before the optimistic merge, with the field values it had then; every other row is as it
  was, and the store is untouched. The log gains the \<^verbatim>\<open>update_extension\<close> entry pushed
  before the call and one \<^verbatim>\<open>rollback_update_extension\<close> entry in front of it. The
  hypotheses say that the optimistic update went through (no row is \<^verbatim>\<open>undefined\<close>), that
  the call rejects, and that the form does not change the id (the dialog has no input for it).
\<close>

theorem saveEdit_rejected_rolls_back:
  assumes beg: "saveEdit_begin role t1 (r, e) form s = Inr s1"
      and rej: "fst (apiUpdateExtension cfg (ext_id e) form remote s1) = Rejected"
      and keep: "ext_id (spread e form) = ext_id e"
  shows "saveEdit cfg role t1 t2 remote (r, e) form s =
           Inr (s\<lparr>next_ref := Suc (next_ref s),
                  data := map (\<lambda>c. if strict_eq (id_of c) (ext_id e) then Obj r e else c) (data s),
                  audit := take 200 (stamp role t2 (rollback_update_entry (ext_id e))
                                     # stamp role t1 (update_entry (ext_id e)) # audit s)\<rparr>)
         \<and> action (rollback_update_entry (ext_id e)) = ''rollback_update_extension''
         \<and> action (update_entry (ext_id e)) = ''update_extension''"
  using saveEdit_rejected_state [OF beg rej keep]
  by (simp add: rollback_update_entry_def update_entry_def)

text \<open>
  Where the edited row is the only row with its id, the list after the rollback is the list
  from before the call. Where a second row bears the same id, that row too becomes the
  snapshot of the edited row.
\<close>

lemma saveEdit_rejected_unique_id:
  assumes beg: "saveEdit_begin role t1 (r, e) form s = Inr s1"
      and rej: "fst (apiUpdateExtension cfg (ext_id e) form remote s1) = Rejected"
      and keep: "ext_id (spread e form) = ext_id e"
      and uniq: "\<forall>c \<in> set (data s). strict_eq (id_of c) (ext_id e) \<longrightarrow> c = Obj r e"
  shows "saveEdit cfg role t1 t2 remote (r, e) form s =
           Inr (s\<lparr>next_ref := Suc (next_ref s),
                  audit := take 200 (stamp role t2 (rollback_update_entry (ext_id e))
                                     # stamp role t1 (update_entry (ext_id e)) # audit s)\<rparr>)"
proof -
  have "map (\<lambda>c. if strict_eq (id_of c) (ext_id e) then Obj r e else c) (data s) = data s"
    using uniq by (simp add: map_idI)
  with saveEdit_rejected_state [OF beg rej keep, of t2] show ?thesis by simp
qed

theorem saveEdit_rejected_rolls_back_witness:
  "saveEdit_begin ''admin'' 10 (3, reception) (ExtensionModal_form (Some reception) [SetName ''Front desk'']) loaded_state
     = Inr (loaded_state\<lparr>next_ref := 7,
              data := [Obj 6 (reception\<lparr>name := Some ''Front desk''\<rparr>), Obj 4 (MOCK_EXTENSIONS_init ! 1), Obj 5 (MOCK_EXTENSIONS_init ! 2)],
              audit := [\<lparr>entry_action = ''update_extension'', entry_detail = ''1001'', ts = 10, user = ''admin''\<rparr>]\<rparr>)
   \<and> (case saveEdit live_cfg ''admin'' 10 11 Rejected (3, reception)
              (ExtensionModal_form (Some reception) [SetName ''Front desk'']) loaded_state of
         Inl _ \<Rightarrow> False
       | Inr s' \<Rightarrow> data s' = data loaded_state
           \<and> map entry_action (audit s') = [''rollback_update_extension'', ''update_extension''])
   \<and> saveEdit_begin ''admin'' 10 (9, lab_row) (ExtensionModal_form (Some lab_row) [SetName ''Lab 2'']) twin_state
     = Inr (twin_state\<lparr>next_ref := 11,
              data := [Obj 10 (lab_row\<lparr>name := Some ''Lab 2''\<rparr>), Obj 10 (lab_row\<lparr>name := Some ''Lab 2''\<rparr>)],
              audit := [\<lparr>entry_action = ''update_extension'', entry_detail = ''-Infinity'', ts = 10, user = ''admin''\<rparr>]\<rparr>)
   \<and> (case saveEdit live_cfg ''admin'' 10 11 Rejected (9, lab_row)
              (ExtensionModal_form (Some lab_row) [SetName ''Lab 2'']) twin_state of
         Inl _ \<Rightarrow> False
       | Inr s' \<Rightarrow> data s' = [Obj 9 lab_row, Obj 9 lab_row]
           \<and> map entry_action (audit s') = [''rollback_update_extension'', ''update_extension''])"
proof -
  let ?form = "ExtensionModal_form (Some reception) [SetName ''Front desk'']"
  let ?s1 = "loaded_state\<lparr>next_ref := 7,
              data := [Obj 6 (reception\<lparr>name := Some ''Front desk''\<rparr>), Obj 4 (MOCK_EXTENSIONS_init ! 1), Obj 5 (MOCK_EXTENSIONS_init ! 2)],
              audit := [\<lparr>entry_action = ''update_extension'', entry_detail = ''1001'', ts = 10, user = ''admin''\<rparr>]\<rparr>"
  have h1: "saveEdit_begin ''admin'' 10 (3, reception) ?form loaded_state = Inr ?s1"
    by (simp add: saveEdit_begin_def loaded_state_eq reception_def ExtensionModal_form_def
        MOCK_EXTENSIONS_init_def strict_eq_def spread_def override_def pushAudit_def stamp_def
        update_entry_def string_of_int_def digits.simps)
  have h2: "fst (apiUpdateExtension live_cfg (ext_id reception) ?form Rejected ?s1) = Rejected"
    by (simp add: apiUpdateExtension_def live_cfg_def remote_reply_def)
  have h4: "ext_id (spread reception ?form) = ext_id reception"
    by (simp add: reception_def ExtensionModal_form_def MOCK_EXTENSIONS_init_def spread_def override_def)
  let ?form2 = "ExtensionModal_form (Some lab_row) [SetName ''Lab 2'']"
  let ?t1 = "twin_state\<lparr>next_ref := 11,
              data := [Obj 10 (lab_row\<lparr>name := Some ''Lab 2''\<rparr>), Obj 10 (lab_row\<lparr>name := Some ''Lab 2''\<rparr>)],
              audit := [\<lparr>entry_action = ''update_extension'', entry_detail = ''-Infinity'', ts = 10, user = ''admin''\<rparr>]\<rparr>"
  have g1: "saveEdit_begin ''admin'' 10 (9, lab_row) ?form2 twin_state = Inr ?t1"
    by (simp add: saveEdit_begin_def twin_state_def lab_row_def lobby_row_def default_form_def
        empty_object_def ExtensionModal_form_def strict_eq_def spread_def override_def
        pushAudit_def stamp_def update_entry_def Let_def)
  have g2: "fst (apiUpdateExtension live_cfg (ext_id lab_row) ?form2 Rejected ?t1) = Rejected"
    by (simp add: apiUpdateExtension_def live_cfg_def remote_reply_def)
  have g4: "ext_id (spread lab_row ?form2) = ext_id lab_row"
    by (simp add: lab_row_def default_form_def empty_object_def ExtensionModal_form_def
        spread_def override_def)
  have a: "case saveEdit live_cfg ''admin'' 10 11 Rejected (3, reception) ?form loaded_state of
         Inl _ \<Rightarrow> False
       | Inr s' \<Rightarrow> data s' = data loaded_state
           \<and> map entry_action (audit s') = [''rollback_update_extension'', ''update_extension'']"
    using saveEdit_rejected_rolls_back [OF h1 h2 h4, of 11]
    by (simp add: stamp_def loaded_state_eq rollback_update_entry_def update_entry_def
        reception_def MOCK_EXTENSIONS_init_def strict_eq_def)
  have b: "case saveEdit live_cfg ''admin'' 10 11 Rejected (9, lab_row) ?form2 twin_state of
         Inl _ \<Rightarrow> False
       | Inr s' \<Rightarrow> data s' = [Obj 9 lab_row, Obj 9 lab_row]
           \<and> map entry_action (audit s') = [''rollback_update_extension'', ''update_extension'']"
    using saveEdit_rejected_rolls_back [OF g1 g2 g4, of 11]
    by (simp add: stamp_def twin_state_def rollback_update_entry_def update_entry_def
        lab_row_def lobby_row_def strict_eq_def)
  show ?thesis
    using h1 g1 a b by simp
qed

text \<open>
  Claim C5. When the call of \<^verbatim>\<open>deleteExt\<close> to the adapter rejects, the whole list
  captured before the optimistic removal is put back (not the single row), and the log
  gains the \<^verbatim>\<open>delete_extension\<close> entry pushed before the call and one
  \<^verbatim>\<open>rollback_delete_extension\<close> entry in front of it: the state differs from the one
  before the call only in the log. The first hypothesis says that the optimistic removal
  went through (no row is \<^verbatim>\<open>undefined\<close>).
\<close>

theorem deleteExt_rejected_restores_list:
  assumes beg: "deleteExt_begin role t1 i s = Inr s1"
      and rej: "fst (apiDeleteExtension cfg i remote s1) = Rejected"
  shows "deleteExt cfg role t1 t2 remote True i s =
           Inr (s\<lparr>audit := take 200 (stamp role t2 (rollback_delete_entry i)
                                     # stamp role t1 (delete_entry i) # audit s)\<rparr>)
         \<and> action (rollback_delete_entry i) = ''rollback_delete_extension''
         \<and> action (delete_entry i) = ''delete_extension''"
proof -
  obtain d1 where d1: "remove_by_id i (data s) = Inr d1"
    using beg by (auto simp: deleteExt_begin_def split: sum.splits)
  have s1: "s1 = s\<lparr>data := d1, audit := pushAudit role t1 (delete_entry i) (audit s)\<rparr>"
    using beg d1 by (simp add: deleteExt_begin_def)
  have api: "apiDeleteExtension cfg i remote s1 = (Rejected, s1)"
    by (rule delete_rejected [OF rej])
  have "deleteExt cfg role t1 t2 remote True i s = Inr (deleteExt_settle role t2 i (data s) Rejected s1)"
    by (simp add: deleteExt_def beg api)
  also have "\<dots> = Inr (s\<lparr>audit := take 200 (stamp role t2 (rollback_delete_entry i)
                                     # stamp role t1 (delete_entry i) # audit s)\<rparr>)"
    by (simp add: deleteExt_settle_def s1 two_pushes)
  finally show ?thesis
    by (simp add: rollback_delete_entry_def delete_entry_def)
qed

theorem deleteExt_rejected_restores_list_witness:
  "deleteExt_begin ''admin'' 10 (Some (Num 1002)) loaded_state
     = Inr (loaded_state\<lparr>data := [Obj 3 (MOCK_EXTENSIONS_init ! 0), Obj 5 (MOCK_EXTENSIONS_init ! 2)],
              audit := [\<lparr>entry_action = ''delete_extension'', entry_detail = ''1002'', ts = 10, user = ''admin''\<rparr>]\<rparr>)
   \<and> (case deleteExt live_cfg ''admin'' 10 11 Rejected True (Some (Num 1002)) loaded_state of
         Inl _ \<Rightarrow> False
       | Inr s' \<Rightarrow> data s' = data loaded_state \<and> length (data s') = 3
           \<and> map entry_action (audit s') = [''rollback_delete_extension'', ''delete_extension''])"
proof -
  let ?s1 = "loaded_state\<lparr>data := [Obj 3 (MOCK_EXTENSIONS_init ! 0), Obj 5 (MOCK_EXTENSIONS_init ! 2)],
              audit := [\<lparr>entry_action = ''delete_extension'', entry_detail = ''1002'', ts = 10, user = ''admin''\<rparr>]\<rparr>"
  have h1: "deleteExt_begin ''admin'' 10 (Some (Num 1002)) loaded_state = Inr ?s1"
    by (simp add: deleteExt_begin_def loaded_state_eq MOCK_EXTENSIONS_init_def strict_eq_def
        pushAudit_def stamp_def delete_entry_def string_of_int_def digits.simps)
  have h2: "fst (apiDeleteExtension live_cfg (Some (Num 1002)) Rejected ?s1) = Rejected"
    by (simp add: apiDeleteExtension_def live_cfg_def)
  show ?thesis
    using h1 deleteExt_rejected_restores_list [OF h1 h2, of 11]
    by (simp add: stamp_def loaded_state_eq rollback_delete_entry_def delete_entry_def)
qed

lemma findIndex_None: "findIndex P xs = None \<longleftrightarrow> (\<forall>x \<in> set xs. \<not> P x)"
  by (induction xs) auto

lemma mock_update_missing:
  assumes "useMock cfg" and "\<forall>x \<in> set (MOCK_EXTENSIONS s). \<not> strict_eq (ext_id (snd x)) i"
  shows "apiUpdateExtension cfg i payload remote s = (Resolved Undefined, s)"
proof -
  have "findIndex (\<lambda>x. strict_eq (ext_id (snd x)) i) (MOCK_EXTENSIONS s) = None"
    using assms(2) by (simp add: findIndex_None)
  with assms(1) show ?thesis by (simp add: apiUpdateExtension_def)
qed

text \<open>
  Claim C10. In mock mode, for an id that no stored extension bears, the update call
  resolves with \<^verbatim>\<open>undefined\<close> and leaves the store as it is. \<^verbatim>\<open>saveEdit\<close> on a
  row with such an id then takes its success path: every row of the list that bears the id
  after the optimistic merge becomes \<^verbatim>\<open>undefined\<close>, the log holds the
  \<^verbatim>\<open>update_extension\<close> entry and no rollback entry, and the store is unchanged.
\<close>

theorem mock_update_of_missing_id:
  assumes mock: "useMock cfg"
      and missing: "\<forall>x \<in> set (MOCK_EXTENSIONS s). \<not> strict_eq (ext_id (snd x)) (ext_id e)"
  shows "apiUpdateExtension cfg (ext_id e) payload remote s = (Resolved Undefined, s)
         \<and> (case saveEdit_begin role t1 (r, e) form s of
               Inl err \<Rightarrow> saveEdit cfg role t1 t2 remote (r, e) form s = Inl err
             | Inr s1 \<Rightarrow>
                 saveEdit cfg role t1 t2 remote (r, e) form s =
                   Inr (s1\<lparr>data := map (\<lambda>c. if strict_eq (id_of c) (ext_id e) then Undefined else c)
                                      (data s1)\<rparr>)
                 \<and> audit s1 = pushAudit role t1 (update_entry (ext_id e)) (audit s)
                 \<and> MOCK_EXTENSIONS s1 = MOCK_EXTENSIONS s)"
proof (intro conjI)
  show "apiUpdateExtension cfg (ext_id e) payload remote s = (Resolved Undefined, s)"
    using mock missing by (rule mock_update_missing)
next
  show "case saveEdit_begin role t1 (r, e) form s of
               Inl err \<Rightarrow> saveEdit cfg role t1 t2 remote (r, e) form s = Inl err
             | Inr s1 \<Rightarrow>
                 saveEdit cfg role t1 t2 remote (r, e) form s =
                   Inr (s1\<lparr>data := map (\<lambda>c. if strict_eq (id_of c) (ext_id e) then Undefined else c)
                                      (data s1)\<rparr>)
                 \<and> audit s1 = pushAudit role t1 (update_entry (ext_id e)) (audit s)
                 \<and> MOCK_EXTENSIONS s1 = MOCK_EXTENSIONS s"
  proof (cases "saveEdit_begin role t1 (r, e) form s")
    case (Inl err)
    then show ?thesis by (simp add: saveEdit_def)
  next
    case (Inr s1)
    let ?upd = "Obj (next_ref s) (spread e form)"
    obtain d1 where d1: "replace_by_id (ext_id e) ?upd (data s) = Inr d1"
      using Inr by (auto simp: saveEdit_begin_def Let_def split: sum.splits)
    from replace_by_id_Inr [OF d1] have objs: "Undefined \<notin> set (data s)"
      and d1_eq: "d1 = map (\<lambda>c. if strict_eq (id_of c) (ext_id e) then ?upd else c) (data s)"
      by simp_all
    have s1: "s1 = s\<lparr>next_ref := Suc (next_ref s), data := d1,
                     audit := pushAudit role t1 (update_entry (ext_id e)) (audit s)\<rparr>"
      using Inr d1 by (simp add: saveEdit_begin_def Let_def)
    have objs1: "Undefined \<notin> set (data s1)"
      using objs by (auto simp: s1 d1_eq)
    have "\<forall>x \<in> set (MOCK_EXTENSIONS s1). \<not> strict_eq (ext_id (snd x)) (ext_id e)"
      using missing by (simp add: s1)
    with mock have api: "apiUpdateExtension cfg (ext_id e) form remote s1 = (Resolved Undefined, s1)"
      by (rule mock_update_missing)
    have "saveEdit cfg role t1 t2 remote (r, e) form s =
            saveEdit_settle role t2 (r, e) (Resolved Undefined) s1"
      by (simp add: saveEdit_def Inr api)
    also have "\<dots> = Inr (s1\<lparr>data := map (\<lambda>c. if strict_eq (id_of c) (ext_id e) then Undefined else c)
                                      (data s1)\<rparr>)"
      by (simp add: saveEdit_settle_def replace_by_id_objs [OF objs1])
    finally show ?thesis
      by (simp add: Inr s1)
  qed
qed

theorem mock_update_of_missing_id_witness:
  "useMock mock_cfg
   \<and> list_all (\<lambda>x. \<not> strict_eq (ext_id (snd x)) (ext_id reception)) (MOCK_EXTENSIONS stale_state)
   \<and> apiUpdateExtension mock_cfg (ext_id reception) (ExtensionModal_form (Some reception) [SetName ''Front desk'']) Rejected stale_state
       = (Resolved Undefined, stale_state)
   \<and> (case saveEdit mock_cfg ''admin'' 10 11 Rejected (3, reception)
              (ExtensionModal_form (Some reception) [SetName ''Front desk'']) stale_state of
         Inl _ \<Rightarrow> False
       | Inr s' \<Rightarrow> data s' = [Undefined, Obj 4 (MOCK_EXTENSIONS_init ! 1), Obj 5 (MOCK_EXTENSIONS_init ! 2)]
           \<and> map entry_action (audit s') = [''update_extension'']
           \<and> MOCK_EXTENSIONS s' = MOCK_EXTENSIONS stale_state)"
proof -
  let ?form = "ExtensionModal_form (Some reception) [SetName ''Front desk'']"
  have h1: "useMock mock_cfg" by (simp add: mock_cfg_def)
  have h2: "\<forall>x \<in> set (MOCK_EXTENSIONS stale_state). \<not> strict_eq (ext_id (snd x)) (ext_id reception)"
    by (simp add: stale_state_def loaded_state_eq reception_def MOCK_EXTENSIONS_init_def strict_eq_def)
  have h3: "saveEdit_begin ''admin'' 10 (3, reception) ?form stale_state
     = Inr (stale_state\<lparr>next_ref := 7,
              data := [Obj 6 (reception\<lparr>name := Some ''Front desk''\<rparr>), Obj 4 (MOCK_EXTENSIONS_init ! 1), Obj 5 (MOCK_EXTENSIONS_init ! 2)],
              audit := [\<lparr>entry_action = ''update_extension'', entry_detail = ''1001'', ts = 10, user = ''admin''\<rparr>]\<rparr>)"
    by (simp add: saveEdit_begin_def stale_state_def loaded_state_eq reception_def ExtensionModal_form_def
        MOCK_EXTENSIONS_init_def strict_eq_def spread_def override_def pushAudit_def stamp_def
        update_entry_def string_of_int_def digits.simps)
  note inst = mock_update_of_missing_id [OF h1 h2, where payload = ?form and remote = Rejected
        and role = "''admin''" and ?t1.0 = 10 and r = 3 and form = ?form and ?t2.0 = 11]
  from inst have api: "apiUpdateExtension mock_cfg (ext_id reception) ?form Rejected stale_state
       = (Resolved Undefined, stale_state)"
    by (rule conjunct1)
  from inst have run: "saveEdit mock_cfg ''admin'' 10 11 Rejected (3, reception) ?form stale_state
       = Inr (stale_state\<lparr>next_ref := 7,
              data := map (\<lambda>c. if strict_eq (id_of c) (ext_id reception) then Undefined else c)
                [Obj 6 (reception\<lparr>name := Some ''Front desk''\<rparr>), Obj 4 (MOCK_EXTENSIONS_init ! 1),
                 Obj 5 (MOCK_EXTENSIONS_init ! 2)],
              audit := [\<lparr>entry_action = ''update_extension'', entry_detail = ''1001'', ts = 10,
                         user = ''admin''\<rparr>]\<rparr>)"
    by (simp add: h3)
  have h2': "list_all (\<lambda>x. \<not> strict_eq (ext_id (snd x)) (ext_id reception)) (MOCK_EXTENSIONS stale_state)"
    using h2 by (simp add: list_all_iff)
  show ?thesis
    using h1 h2' api run
    by (simp add: reception_def MOCK_EXTENSIONS_init_def strict_eq_def)
qed

section \<open>Properties of the realtime status feed\<close>

text \<open>
  Claim C8. A message that does not parse, or that parses to an object with neither a
  \<^verbatim>\<open>trunks\<close> nor a \<^verbatim>\<open>queues\<close> property, leaves the status snapshot as it was.
\<close>

theorem onmessage_discards_unrecognized:
  assumes "parsed = None
           \<or> (\<exists>kvs. parsed = Some (JObj kvs) \<and> map_of kvs ''trunks'' = None \<and> map_of kvs ''queues'' = None)"
  shows "onmessage parsed status = status"
  using assms by (auto simp: onmessage_def)

theorem onmessage_discards_unrecognized_witness:
  "map_of [(''type'', JStr ''ping''), (''seq'', JNum 7)] ''trunks'' = None
   \<and> map_of [(''type'', JStr ''ping''), (''seq'', JNum 7)] ''queues'' = None
   \<and> onmessage (Some ping_msg) MOCK_STATUS = MOCK_STATUS
   \<and> onmessage None MOCK_STATUS = MOCK_STATUS"
proof -
  have h: "Some ping_msg = None
           \<or> (\<exists>kvs. Some ping_msg = Some (JObj kvs) \<and> map_of kvs ''trunks'' = None \<and> map_of kvs ''queues'' = None)"
    by (simp add: ping_msg_def)
  have h': "(None :: json option) = None
           \<or> (\<exists>kvs. (None :: json option) = Some (JObj kvs) \<and> map_of kvs ''trunks'' = None \<and> map_of kvs ''queues'' = None)"
    by simp
  show ?thesis
    using onmessage_discards_unrecognized [OF h, of MOCK_STATUS]
      onmessage_discards_unrecognized [OF h', of MOCK_STATUS]
    by simp
qed

text \<open>
  Claim C2 as stated does not hold: a message with \<^verbatim>\<open>trunks\<close> and without
  \<^verbatim>\<open>queues\<close> is accepted, and the snapshot is then the message itself, whose
  \<^verbatim>\<open>queues\<close> is \<^verbatim>\<open>undefined\<close>; the queues of the snapshot before are gone.
  And a message whose \<^verbatim>\<open>trunks\<close> key holds \<^verbatim>\<open>null\<close> is not accepted at all.
\<close>

theorem trunks_only_message_counterexample:
  "get_prop trunks_only_msg ''trunks'' \<noteq> Inr None
   \<and> get_prop trunks_only_msg ''queues'' = Inr None
   \<and> onmessage (Some trunks_only_msg) MOCK_STATUS = trunks_only_msg
   \<and> queues_of (onmessage (Some trunks_only_msg) MOCK_STATUS) = Inr None
   \<and> queues_of (onmessage (Some trunks_only_msg) MOCK_STATUS) \<noteq> queues_of MOCK_STATUS
   \<and> get_prop (JObj [(''trunks'', JNull)]) ''trunks'' = Inr (Some JNull)
   \<and> onmessage (Some (JObj [(''trunks'', JNull)])) MOCK_STATUS = MOCK_STATUS"
  by (simp add: onmessage_def trunks_only_msg_def MOCK_STATUS_def queues_of_def)

text \<open>The test is on the value of \<^verbatim>\<open>trunks\<close>, not on the presence of the key.\<close>

lemma falsy_trunks_discarded:
  "onmessage (Some (JObj [(''trunks'', JNull)])) status = status
   \<and> onmessage (Some (JObj [(''trunks'', JNum 0)])) status = status
   \<and> onmessage (Some (JObj [(''trunks'', JStr [])])) status = status
   \<and> onmessage (Some (JObj [(''trunks'', JBool False)])) status = status"
  by (simp add: onmessage_def)

text \<open>
  Claim C2, amended. A message that parses to an object whose \<^verbatim>\<open>trunks\<close> value is
  truthy and that has no \<^verbatim>\<open>queues\<close> property is accepted, and the snapshot becomes
  the message: its trunks are those of the message and its queues are \<^verbatim>\<open>undefined\<close>,
  whatever the snapshot was before.
\<close>

theorem onmessage_trunks_replaces_snapshot:
  assumes "map_of kvs ''trunks'' = Some t" and "truthy (Some t)" and "map_of kvs ''queues'' = None"
  shows "onmessage (Some (JObj kvs)) status = JObj kvs
         \<and> trunks_of (onmessage (Some (JObj kvs)) status) = Inr (Some t)
         \<and> queues_of (onmessage (Some (JObj kvs)) status) = Inr None"
  using assms by (simp add: onmessage_def trunks_of_def queues_of_def)

theorem onmessage_trunks_replaces_snapshot_witness:
  "map_of [(''trunks'', JArr [])] ''trunks'' = Some (JArr [])
   \<and> truthy (Some (JArr []))
   \<and> map_of [(''trunks'', JArr [])] ''queues'' = None
   \<and> onmessage (Some (JObj [(''trunks'', JArr [])])) MOCK_STATUS = JObj [(''trunks'', JArr [])]
   \<and> trunks_of (onmessage (Some (JObj [(''trunks'', JArr [])])) MOCK_STATUS) = Inr (Some (JArr []))
   \<and> queues_of (onmessage (Some (JObj [(''trunks'', JArr [])])) MOCK_STATUS) = Inr None"
proof -
  have h1: "map_of [(''trunks'', JArr [])] ''trunks'' = Some (JArr [])" by simp
  have h2: "truthy (Some (JArr []))" by simp
  have h3: "map_of [(''trunks'', JArr [])] ''queues'' = None" by simp
  show ?thesis
    using h1 h2 h3 onmessage_trunks_replaces_snapshot [OF h1 h2 h3, of MOCK_STATUS]
    by (simp add: trunks_of_def queues_of_def)
qed

section \<open>Properties of the CSV export\<close>

text \<open>What \<^verbatim>\<open>escape\<close> does to a string, by the two characters it tests for.\<close>

lemma escape_verbatim:
  "CHR '','' \<notin> set s \<Longrightarrow> CHR 0x0A \<notin> set s \<Longrightarrow> escape (FStr s) = s"
  by (simp add: escape_def)

lemma escape_quoted:
  "CHR '','' \<in> set s \<or> CHR 0x0A \<in> set s \<Longrightarrow>
   escape (FStr s) = [CHR 0x22] @ replace_quotes s @ [CHR 0x22]"
  by (simp add: escape_def)

text \<open>
  Claim C6 asks for a field with a double quote to be enclosed in double quotes with the
  quote doubled. \<^verbatim>\<open>escape\<close> tests for a comma and a newline only: a caller id with
  double quotes and neither of them is written as it is, while the same text followed by a
  comma is quoted and its quotes are doubled.
\<close>

theorem downloadCsv_quote_only_field_verbatim:
  "escape (FStr quoted_caller) = quoted_caller
   \<and> downloadCsv [[(''id'', FStr ''c1''), (''src'', FStr quoted_caller), (''duration'', FNum 47)]]
       = ''id,src,duration'' @ [CHR 0x0A] @ ''c1,'' @ quoted_caller @ '',47''
   \<and> escape (FStr (quoted_caller @ '',''))
       = [CHR 0x22, CHR 0x22, CHR 0x22] @ ''Bob'' @ [CHR 0x22, CHR 0x22] @ '' <1001>,'' @ [CHR 0x22]"
  by (simp add: escape_def downloadCsv_def quoted_caller_def get_field_def replace_quotes_def
      string_of_int_def digits.simps)

section \<open>Properties of the pagination\<close>

lemma js_slice_length:
  "0 \<le> start \<Longrightarrow> 0 \<le> n \<Longrightarrow> int (length (js_slice xs start (start + n))) \<le> n"
  by (auto simp: js_slice_def Let_def min_def)

lemma totalPages_pos:
  "0 < n \<Longrightarrow> totalPages t n = Num (max 1 \<lceil>(of_int t :: rat) / of_int n\<rceil>)"
  by (simp add: totalPages_def Math_max_def Math_ceil_div_def)

lemma pager_next:
  assumes n: "0 < n" and p: "1 \<le> p" and en: "\<not> next_disabled t n p"
  shows "next_click t n p = Num (p + 1) \<and> p + 1 \<le> \<lceil>(of_int t :: rat) / of_int n\<rceil>"
proof -
  let ?c = "\<lceil>(of_int t :: rat) / of_int n\<rceil>"
  have tp: "totalPages t n = Num (max 1 ?c)"
    using n by (rule totalPages_pos)
  from en p have "p < max 1 ?c"
    by (auto simp: next_disabled_def tp)
  with p show ?thesis
    by (auto simp: next_click_def tp)
qed

lemma src_residues: "(i :: nat) mod 5 \<in> {0, 1, 2, 3, 4}"
proof -
  have "i mod 5 < 5" by simp
  then show ?thesis by (simp add: insert_iff) presburger
qed

lemma dst_residues: "(i :: nat) mod 7 \<in> {0, 1, 2, 3, 4, 5, 6}"
proof -
  have "i mod 7 < 7" by simp
  then show ?thesis by (simp add: insert_iff) presburger
qed

lemma digits_values:
  "digits 1001 = ''1001''" "digits 1002 = ''1002''" "digits 1003 = ''1003''"
  "digits 1004 = ''1004''" "digits 1005 = ''1005''" "digits 1006 = ''1006''"
  "digits 1007 = ''1007''"
  by (simp_all add: digits.simps)

lemma mock_call_src:
  "get_field (mock_call i) ''src'' \<in> FStr ` {''0400123456'', ''1001'', ''1002'', ''1003'', ''1004'', ''1005''}"
proof -
  have src: "get_field (mock_call i) ''src''
      = FStr (if i mod 3 = 0 then ''0400123456'' else digits (1001 + i mod 5))"
    by (simp add: mock_call_def get_field_def)
  show ?thesis
    unfolding src using src_residues [of i]
    by (auto simp: digits_values)
qed

lemma mock_call_dst:
  "get_field (mock_call i) ''dst'' \<in> FStr ` {''1001'', ''1002'', ''1003'', ''1004'', ''1005'', ''1006'', ''1007''}"
proof -
  have dst: "get_field (mock_call i) ''dst'' = FStr (digits (1001 + i mod 7))"
    by (simp add: mock_call_def get_field_def)
  show ?thesis
    unfolding dst using dst_residues [of i]
    by (auto simp: digits_values)
qed

lemma no_call_of_9999: "\<not> call_matches Date_parse no_match_query (mock_call i)"
  using mock_call_src [of i] mock_call_dst [of i]
  by (auto simp: call_matches_def no_match_query_def)

lemma no_match_filter: "filter (call_matches Date_parse no_match_query) MOCK_CALLS = []"
  by (simp add: MOCK_CALLS_def filter_empty_conv no_call_of_9999)

text \<open>
  Claim C7 as stated does not hold when no record matches the filter: the panel computes
  \<^verbatim>\<open>Math.max(1, Math.ceil(total / pageSize))\<close>, so with a total of 0 it shows page 1
  of 1, while the total divided by the page size, rounded up, is 0.
\<close>

theorem page_one_of_no_rows_counterexample:
  "useMock mock_cfg \<and> 1 \<le> page no_match_query \<and> 0 < pageSize no_match_query
   \<and> apiFetchCalls no_dates mock_cfg no_match_query Rejected = Resolved \<lparr>rows = [], total_rows = 0\<rparr>
   \<and> totalPages 0 20 = Num 1
   \<and> \<lceil>(0 :: rat) / 20\<rceil> = 0
   \<and> \<not> num_ge (Num \<lceil>(0 :: rat) / 20\<rceil>) (totalPages 0 20)"
proof -
  have "apiFetchCalls no_dates mock_cfg no_match_query Rejected = Resolved \<lparr>rows = [], total_rows = 0\<rparr>"
    by (simp add: apiFetchCalls_def mock_cfg_def no_match_filter js_slice_def)
  then show ?thesis
    by (simp add: mock_cfg_def no_match_query_def totalPages_def Math_max_def Math_ceil_div_def)
qed

text \<open>
  Claim C7, amended. In mock mode, for a page number of at least 1 and a positive page
  size, the fetch returns at most that many rows and its total is the number of mock call
  records that match the filter. The last page the panel offers is the greater of 1 and the
  total divided by the page size, rounded up; and whenever the Next button is enabled, the
  page it leads to is the next one and is at most the total divided by the page size,
  rounded up.
\<close>

theorem apiFetchCalls_page_bounds:
  assumes mock: "useMock cfg" and p: "1 \<le> page q" and n: "0 < pageSize q"
  shows "case apiFetchCalls Date_parse cfg q remote of
           Rejected \<Rightarrow> False
         | Resolved pg \<Rightarrow>
             int (length (rows pg)) \<le> pageSize q
             \<and> total_rows pg = int (length (filter (call_matches Date_parse q) MOCK_CALLS))
             \<and> totalPages (total_rows pg) (pageSize q)
                 = Num (max 1 \<lceil>(of_int (total_rows pg) :: rat) / of_int (pageSize q)\<rceil>)
             \<and> (next_disabled (total_rows pg) (pageSize q) (page q)
                \<or> next_click (total_rows pg) (pageSize q) (page q) = Num (page q + 1)
                   \<and> page q + 1 \<le> \<lceil>(of_int (total_rows pg) :: rat) / of_int (pageSize q)\<rceil>)"
proof -
  have "0 \<le> (page q - 1) * pageSize q" using p n by simp
  then have len: "int (length (js_slice (filter (call_matches Date_parse q) MOCK_CALLS)
            ((page q - 1) * pageSize q) ((page q - 1) * pageSize q + pageSize q))) \<le> pageSize q"
    using n by (intro js_slice_length) simp_all
  let ?t = "int (length (filter (call_matches Date_parse q) MOCK_CALLS))"
  have res: "apiFetchCalls Date_parse cfg q remote =
      Resolved \<lparr>rows = js_slice (filter (call_matches Date_parse q) MOCK_CALLS)
            ((page q - 1) * pageSize q) ((page q - 1) * pageSize q + pageSize q),
         total_rows = ?t\<rparr>"
    using mock by (simp add: apiFetchCalls_def Let_def)
  have pager: "next_disabled ?t (pageSize q) (page q)
      \<or> next_click ?t (pageSize q) (page q) = Num (page q + 1)
         \<and> page q + 1 \<le> \<lceil>(of_int ?t :: rat) / of_int (pageSize q)\<rceil>"
    using pager_next [OF n p, of ?t] by blast
  have tp: "totalPages ?t (pageSize q) = Num (max 1 \<lceil>(of_int ?t :: rat) / of_int (pageSize q)\<rceil>)"
    using n by (rule totalPages_pos)
  show ?thesis
    unfolding res using len pager tp by simp
qed

theorem apiFetchCalls_page_bounds_witness:
  "useMock mock_cfg \<and> 1 \<le> page first_page \<and> 0 < pageSize first_page
   \<and> (case apiFetchCalls no_dates mock_cfg first_page Rejected of
         Rejected \<Rightarrow> False
       | Resolved pg \<Rightarrow>
           rows pg = take 20 MOCK_CALLS \<and> int (length (rows pg)) \<le> 20 \<and> total_rows pg = 137)
   \<and> totalPages 137 20 = Num 7
   \<and> \<not> next_disabled 137 20 1 \<and> next_click 137 20 1 = Num 2
   \<and> (2 :: int) \<le> \<lceil>(137 :: rat) / 20\<rceil>"
proof -
  have h1: "useMock mock_cfg" by (simp add: mock_cfg_def)
  have h2: "1 \<le> page first_page" by (simp add: first_page_def)
  have h3: "0 < pageSize first_page" by (simp add: first_page_def)
  have res: "apiFetchCalls no_dates mock_cfg first_page Rejected
      = Resolved \<lparr>rows = take 20 MOCK_CALLS, total_rows = 137\<rparr>"
    by (simp add: apiFetchCalls_def call_matches_def first_page_def mock_cfg_def MOCK_CALLS_def
        js_slice_def Let_def)
  have en: "\<not> next_disabled 137 20 1"
    by (simp add: next_disabled_def totalPages_def Math_max_def Math_ceil_div_def)
  from apiFetchCalls_page_bounds [OF h1 h2 h3, of no_dates Rejected]
  have inst: "int (length (take 20 MOCK_CALLS)) \<le> pageSize first_page
      \<and> totalPages 137 (pageSize first_page)
          = Num (max 1 \<lceil>(137 :: rat) / of_int (pageSize first_page)\<rceil>)
      \<and> (next_disabled 137 (pageSize first_page) (page first_page)
          \<or> next_click 137 (pageSize first_page) (page first_page) = Num (page first_page + 1)
             \<and> page first_page + 1 \<le> \<lceil>(137 :: rat) / of_int (pageSize first_page)\<rceil>)"
    by (simp add: res)
  have c7: "\<lceil>(137 :: rat) / 20\<rceil> = 7"
    by (rule ceiling_unique) simp_all
  show ?thesis
    unfolding res using h1 h2 h3 en inst
    by (simp add: first_page_def c7)
qed

section \<open>The list and the mock store over sequences of operations\<close>

lemma strict_eq_Num: "is_Num i \<Longrightarrow> strict_eq a i = (a = i)"
  by (cases i rule: is_Num.cases) (auto simp: strict_eq_def)

lemma is_Num_not_NaN: "is_Num i \<Longrightarrow> strict_eq i i"
  by (simp add: strict_eq_Num)

lemma findIndex_Some:
  "findIndex P xs = Some j \<Longrightarrow> j < length xs \<and> P (xs ! j)"
proof (induction xs arbitrary: j)
  case Nil
  then show ?case by simp
next
  case (Cons x xs)
  then show ?case by (auto split: if_splits)
qed

lemma findIndex_map: "findIndex P (map f xs) = findIndex (\<lambda>x. P (f x)) xs"
  by (induction xs) auto

lemma replace_at_index:
  "distinct (map g xs) \<Longrightarrow> findIndex (\<lambda>x. g x = i) xs = Some j \<Longrightarrow>
   map (\<lambda>x. if g x = i then y else x) xs = xs[j := y]"
proof (induction xs arbitrary: j)
  case Nil
  then show ?case by simp
next
  case (Cons a as)
  show ?case
  proof (cases "g a = i")
    case True
    with Cons.prems have j: "j = 0" by simp
    have fresh: "\<forall>x \<in> set as. g x \<noteq> i"
    proof
      fix x
      assume "x \<in> set as"
      then have "g x \<in> g ` set as" by (rule imageI)
      moreover from Cons.prems(1) have "g a \<notin> g ` set as" by simp
      ultimately show "g x \<noteq> i" using True by auto
    qed
    from fresh have "map (\<lambda>x. if g x = i then y else x) as = as"
      by (simp add: map_idI)
    with True j show ?thesis by simp
  next
    case False
    with Cons.prems obtain j' where j': "findIndex (\<lambda>x. g x = i) as = Some j'" and j: "j = Suc j'"
      by auto
    with Cons.prems Cons.IH [OF _ j'] False show ?thesis by simp
  qed
qed

lemma remove_at_index:
  "distinct (map g xs) \<Longrightarrow> findIndex (\<lambda>x. g x = i) xs = Some j \<Longrightarrow>
   filter (\<lambda>x. g x \<noteq> i) xs = take j xs @ drop (Suc j) xs"
proof (induction xs arbitrary: j)
  case Nil
  then show ?case by simp
next
  case (Cons a as)
  show ?case
  proof (cases "g a = i")
    case True
    with Cons.prems have j: "j = 0" by simp
    have fresh: "\<forall>x \<in> set as. g x \<noteq> i"
    proof
      fix x
      assume "x \<in> set as"
      then have "g x \<in> g ` set as" by (rule imageI)
      moreover from Cons.prems(1) have "g a \<notin> g ` set as" by simp
      ultimately show "g x \<noteq> i" using True by auto
    qed
    from fresh have "filter (\<lambda>x. g x \<noteq> i) as = as"
      by (simp add: filter_id_conv)
    with True j show ?thesis by simp
  next
    case False
    with Cons.prems obtain j' where j': "findIndex (\<lambda>x. g x = i) as = Some j'" and j: "j = Suc j'"
      by auto
    with Cons.prems Cons.IH [OF _ j'] False show ?thesis by simp
  qed
qed

lemma contents_replace:
  "map contents (map (\<lambda>c. if id_of c = i then Obj r e' else c) d)
   = map (\<lambda>x. if opt_id x = i then Some e' else x) (map contents d)"
proof (induction d)
  case Nil
  then show ?case by simp
next
  case (Cons c cs)
  then show ?case by (cases c) auto
qed

lemma contents_remove:
  "map contents (filter (\<lambda>c. id_of c \<noteq> i) d) = filter (\<lambda>x. opt_id x \<noteq> i) (map contents d)"
proof (induction d)
  case Nil
  then show ?case by simp
next
  case (Cons c cs)
  then show ?case by (cases c) auto
qed

lemma setForm_keeps_id: "ext_id (foldl setForm e changes) = ext_id e"
proof (induction changes arbitrary: e)
  case Nil
  then show ?case by simp
next
  case (Cons c cs)
  then show ?case by (cases c) simp_all
qed

lemma modal_form_id:
  "ext_id (ExtensionModal_form (Some e) changes) = ext_id e"
  "ext_id (ExtensionModal_form None changes) = None"
  by (simp_all add: ExtensionModal_form_def setForm_keeps_id default_form_def empty_object_def)

lemma spread_keeps_id: "ext_id form = ext_id e \<Longrightarrow> ext_id (spread e form) = ext_id e"
  by (simp add: spread_def override_def split: option.splits)

lemma foldl_max_ge: "x \<in> set (a # ns) \<Longrightarrow> x \<le> foldl max a (ns :: int list)"
proof (induction ns arbitrary: a x)
  case Nil
  then show ?case by simp
next
  case (Cons n ns)
  have top: "max a n \<le> foldl max (max a n) ns"
    using Cons.IH [of "max a n" "max a n"] by simp
  have rest: "x \<le> foldl max (max a n) ns" if "x \<in> set ns"
    using Cons.IH [of x "max a n"] that by simp
  from Cons.prems consider "x = a" | "x = n" | "x \<in> set ns" by auto
  then show ?case
  proof cases
    case 1
    with top show ?thesis by simp
  next
    case 2
    with top show ?thesis by simp
  next
    case 3
    with rest show ?thesis by simp
  qed
qed

lemma foldl_num_max2: "foldl num_max2 (Num a) (map Num ns) = Num (foldl max a ns)"
  by (induction ns arbitrary: a) simp_all

lemma all_Num_list:
  "list_all (\<lambda>x. is_Num (g x)) xs \<Longrightarrow> \<exists>ns. map (\<lambda>x. to_number (g x)) xs = map Num ns \<and> map g xs = map (\<lambda>n. Some (Num n)) ns"
proof (induction xs)
  case Nil
  then show ?case by simp
next
  case (Cons x xs)
  then obtain ns where ns: "map (\<lambda>x. to_number (g x)) xs = map Num ns" "map g xs = map (\<lambda>n. Some (Num n)) ns"
    by auto
  from Cons.prems obtain n where "g x = Some (Num n)"
    by (cases "g x" rule: is_Num.cases) auto
  with ns have "map (\<lambda>x. to_number (g x)) (x # xs) = map Num (n # ns) \<and> map g (x # xs) = map (\<lambda>n. Some (Num n)) (n # ns)"
    by simp
  then show ?case by blast
qed

lemma next_id_fresh:
  assumes nums: "list_all (\<lambda>x. is_Num (g x)) xs" and ne: "xs \<noteq> []"
  shows "\<exists>m. num_add (Math_max (map (\<lambda>x. to_number (g x)) xs)) 1 = Num m \<and> Some (Num m) \<notin> set (map g xs)"
proof -
  from all_Num_list [OF nums] obtain ns
    where ns: "map (\<lambda>x. to_number (g x)) xs = map Num ns" "map g xs = map (\<lambda>n. Some (Num n)) ns"
    by blast
  from ne ns obtain a as where as: "ns = a # as" by (cases ns) auto
  have mx: "Math_max (map Num ns) = Num (foldl max a as)"
    by (simp add: Math_max_def as foldl_num_max2)
  have "\<forall>n \<in> set ns. n \<le> foldl max a as"
    using foldl_max_ge [of _ a as] by (simp add: as)
  then have "foldl max a as + 1 \<notin> set ns" by fastforce
  then have "Some (Num (foldl max a as + 1)) \<notin> set (map g xs)"
    by (auto simp: ns)
  then show ?thesis by (simp add: ns mx)
qed

lemma map_fresh_object:
  "list_all (allocated n) d \<Longrightarrow> map (\<lambda>c. if same_object c (Obj n e) then v else c) d = d"
proof (induction d)
  case Nil
  then show ?case by simp
next
  case (Cons c cs)
  then show ?case by (cases c) auto
qed

lemma allocated_mono: "allocated n c \<Longrightarrow> n \<le> m \<Longrightarrow> allocated m c"
  by (cases c) auto

lemma list_all_allocated_mono: "list_all (allocated n) d \<Longrightarrow> n \<le> m \<Longrightarrow> list_all (allocated m) d"
  by (auto simp: list_all_iff intro: allocated_mono)

lemma createExt_mock:
  assumes mock: "useMock cfg" and alloc: "refs_allocated s"
      and nums: "list_all (\<lambda>x. is_Num (ext_id (snd x))) (MOCK_EXTENSIONS s)"
      and ne: "MOCK_EXTENSIONS s \<noteq> []" and noid: "ext_id form = None"
  shows "\<exists>row m. createExt cfg role rnd t1 t2 remote form s =
           s\<lparr>MOCK_EXTENSIONS := MOCK_EXTENSIONS s @ [(Suc (next_ref s), row)],
             next_ref := Suc (Suc (next_ref s)),
             data := Obj (Suc (next_ref s)) row # data s,
             audit := pushAudit role t1 (create_entry form) (audit s)\<rparr>
         \<and> ext_id row = Some (Num m)
         \<and> Some (Num m) \<notin> set (map (\<lambda>x. ext_id (snd x)) (MOCK_EXTENSIONS s))"
proof -
  from next_id_fresh [OF nums ne] obtain m
    where m: "num_add (Math_max (map (\<lambda>x. to_number (ext_id (snd x))) (MOCK_EXTENSIONS s))) 1 = Num m"
      and fresh: "Some (Num m) \<notin> set (map (\<lambda>x. ext_id (snd x)) (MOCK_EXTENSIONS s))"
    by blast
  define row where "row = spread (empty_object\<lparr>ext_id := Some (Num m),
      tech := Some (case tech form of None \<Rightarrow> ''PJSIP'' | Some t \<Rightarrow> if t = [] then ''PJSIP'' else t)\<rparr>) form"
  have id_row: "ext_id row = Some (Num m)"
    by (simp add: row_def spread_def override_def noid)
  have keep: "map (\<lambda>c. if same_object c (placeholder (next_ref s) rnd form)
                        then Obj (Suc (next_ref s)) row else c) (data s) = data s"
    using alloc unfolding refs_allocated_def placeholder_def by (rule map_fresh_object)
  let ?s1 = "createExt_begin role rnd t1 form s"
  have api: "apiCreateExtension cfg form remote ?s1 =
      (Resolved (Obj (Suc (next_ref s)) row),
       ?s1\<lparr>MOCK_EXTENSIONS := MOCK_EXTENSIONS s @ [(Suc (next_ref s), row)],
            next_ref := Suc (Suc (next_ref s))\<rparr>)"
    using mock by (simp add: apiCreateExtension_def createExt_begin_def Let_def m row_def)
  have "createExt cfg role rnd t1 t2 remote form s =
      createExt_settle role t2 form (placeholder (next_ref s) rnd form)
        (Resolved (Obj (Suc (next_ref s)) row))
        (?s1\<lparr>MOCK_EXTENSIONS := MOCK_EXTENSIONS s @ [(Suc (next_ref s), row)],
             next_ref := Suc (Suc (next_ref s))\<rparr>)"
    by (simp add: createExt_def api)
  also have "\<dots> = s\<lparr>MOCK_EXTENSIONS := MOCK_EXTENSIONS s @ [(Suc (next_ref s), row)],
             next_ref := Suc (Suc (next_ref s)),
             data := Obj (Suc (next_ref s)) row # data s,
             audit := pushAudit role t1 (create_entry form) (audit s)\<rparr>"
    using keep by (simp add: createExt_settle_def createExt_begin_def placeholder_def)
  finally have "createExt cfg role rnd t1 t2 remote form s =
           s\<lparr>MOCK_EXTENSIONS := MOCK_EXTENSIONS s @ [(Suc (next_ref s), row)],
             next_ref := Suc (Suc (next_ref s)),
             data := Obj (Suc (next_ref s)) row # data s,
             audit := pushAudit role t1 (create_entry form) (audit s)\<rparr>" .
  with id_row fresh show ?thesis by blast
qed

lemma create_keeps_sync:
  assumes mock: "useMock cfg" and sync: "in_sync s"
      and ne: "MOCK_EXTENSIONS s \<noteq> []" and noid: "ext_id form = None"
  shows "in_sync (createExt cfg role rnd t1 t2 remote form s)"
proof -
  from sync have alloc: "refs_allocated s"
    and nums: "list_all (\<lambda>x. is_Num (ext_id (snd x))) (MOCK_EXTENSIONS s)"
    and dist: "distinct (map (\<lambda>x. ext_id (snd x)) (MOCK_EXTENSIONS s))"
    and objs: "Undefined \<notin> set (data s)" and eq: "shown s = stored s"
    by (simp_all add: in_sync_def)
  from createExt_mock [OF mock alloc nums ne noid, of role rnd t1 t2 remote]
  obtain row m where res: "createExt cfg role rnd t1 t2 remote form s =
           s\<lparr>MOCK_EXTENSIONS := MOCK_EXTENSIONS s @ [(Suc (next_ref s), row)],
             next_ref := Suc (Suc (next_ref s)),
             data := Obj (Suc (next_ref s)) row # data s,
             audit := pushAudit role t1 (create_entry form) (audit s)\<rparr>"
      and id_row: "ext_id row = Some (Num m)"
      and fresh: "Some (Num m) \<notin> set (map (\<lambda>x. ext_id (snd x)) (MOCK_EXTENSIONS s))"
    by blast
  have alloc': "list_all (allocated (Suc (Suc (next_ref s)))) (data s)"
    using alloc unfolding refs_allocated_def by (rule list_all_allocated_mono) simp
  show ?thesis
    unfolding res using objs eq dist nums id_row fresh alloc'
    by (simp add: in_sync_def shown_def stored_def refs_allocated_def)
qed

lemma shown_row_stored:
  assumes eq: "shown s = stored s" and row: "Obj r e \<in> set (data s)"
  shows "\<exists>x \<in> set (MOCK_EXTENSIONS s). snd x = e"
proof -
  from row have "contents (Obj r e) \<in> contents ` set (data s)" by (rule imageI)
  then have "Some e \<in># shown s" by (simp add: shown_def)
  with eq have "Some e \<in># stored s" by simp
  then show ?thesis by (auto simp: stored_def)
qed

lemma distinct_same_key:
  assumes "distinct (map g xs)" and "x \<in> set xs" and "j < length xs" and "g (xs ! j) = g x"
  shows "xs ! j = x"
proof -
  from assms(1) have "inj_on g (set xs)" by (simp add: distinct_map)
  moreover from assms(3) have "xs ! j \<in> set xs" by simp
  ultimately show ?thesis using assms(2,4) by (auto dest: inj_onD)
qed

lemma replace_twice:
  "id_of u = i \<Longrightarrow>
   map (\<lambda>c. if id_of c = i then v else c) (map (\<lambda>c. if id_of c = i then u else c) d)
   = map (\<lambda>c. if id_of c = i then v else c) d"
  by (induction d) auto

lemma stored_row_found:
  assumes nums: "list_all (\<lambda>x. is_Num (ext_id (snd x))) st"
      and dist: "distinct (map (\<lambda>x. ext_id (snd x)) st)"
      and x: "x \<in> set st"
  shows "is_Num (ext_id (snd x))
         \<and> (\<exists>j. findIndex (\<lambda>y. strict_eq (ext_id (snd y)) (ext_id (snd x))) st = Some j
                \<and> findIndex (\<lambda>y. ext_id (snd y) = ext_id (snd x)) st = Some j
                \<and> j < length st \<and> st ! j = x)"
proof -
  from nums x have num: "is_Num (ext_id (snd x))" by (simp add: list_all_iff)
  from x have "findIndex (\<lambda>y. ext_id (snd y) = ext_id (snd x)) st \<noteq> None"
    by (auto simp: findIndex_None)
  then obtain j where j: "findIndex (\<lambda>y. ext_id (snd y) = ext_id (snd x)) st = Some j" by auto
  from findIndex_Some [OF j] have lt: "j < length st" and key: "ext_id (snd (st ! j)) = ext_id (snd x)"
    by simp_all
  from distinct_same_key [OF dist x lt key] have "st ! j = x" .
  with num j lt show ?thesis by (simp add: strict_eq_Num)
qed

lemma edit_keeps_sync:
  assumes mock: "useMock cfg" and sync: "in_sync s" and row: "Obj r e \<in> set (data s)"
      and form: "ext_id form = ext_id e"
  shows "\<exists>s'. saveEdit cfg role t1 t2 remote (r, e) form s = Inr s' \<and> in_sync s'"
proof -
  let ?i = "ext_id e" and ?n = "next_ref s" and ?st = "MOCK_EXTENSIONS s" and ?e' = "spread e form"
  let ?g = "\<lambda>x. ext_id (snd x)"
  from sync have alloc: "list_all (allocated ?n) (data s)"
    and nums: "list_all (\<lambda>x. is_Num (?g x)) ?st"
    and dist: "distinct (map ?g ?st)"
    and objs: "Undefined \<notin> set (data s)" and eq: "shown s = stored s"
    by (simp_all add: in_sync_def refs_allocated_def)
  from shown_row_stored [OF eq row] obtain x where x: "x \<in> set ?st" and xe: "snd x = e" by blast
  from stored_row_found [OF nums dist x] xe obtain j
    where num: "is_Num ?i"
      and fi: "findIndex (\<lambda>y. strict_eq (?g y) ?i) ?st = Some j"
      and fi': "findIndex (\<lambda>y. ?g y = ?i) ?st = Some j"
      and lt: "j < length ?st" and at: "?st ! j = x"
    by auto
  have seq: "\<And>a. strict_eq a ?i = (a = ?i)" by (rule strict_eq_Num [OF num])
  have id': "ext_id ?e' = ?i" using form by (rule spread_keeps_id)
  let ?upd = "Obj ?n ?e'" and ?saved = "Obj (Suc ?n) ?e'"
  let ?d1 = "map (\<lambda>c. if id_of c = ?i then ?upd else c) (data s)"
  let ?d2 = "map (\<lambda>c. if id_of c = ?i then ?saved else c) (data s)"
  let ?s1 = "s\<lparr>next_ref := Suc ?n, data := ?d1,
               audit := pushAudit role t1 (update_entry ?i) (audit s)\<rparr>"
  let ?s2 = "s\<lparr>MOCK_EXTENSIONS := ?st[j := (Suc ?n, ?e')], next_ref := Suc (Suc ?n), data := ?d2,
               audit := pushAudit role t1 (update_entry ?i) (audit s)\<rparr>"
  have beg: "saveEdit_begin role t1 (r, e) form s = Inr ?s1"
    by (simp add: saveEdit_begin_def Let_def replace_by_id_objs [OF objs] seq)
  have api: "apiUpdateExtension cfg ?i form remote ?s1 =
      (Resolved ?saved, ?s1\<lparr>MOCK_EXTENSIONS := ?st[j := (Suc ?n, ?e')], next_ref := Suc (Suc ?n)\<rparr>)"
    using mock by (simp add: apiUpdateExtension_def fi Let_def at xe)
  have objs1: "Undefined \<notin> set ?d1" using objs by auto
  have "replace_by_id ?i ?saved ?d1 = Inr (map (\<lambda>c. if id_of c = ?i then ?saved else c) ?d1)"
    by (simp add: replace_by_id_objs [OF objs1] seq)
  also have "map (\<lambda>c. if id_of c = ?i then ?saved else c) ?d1 = ?d2"
    by (rule replace_twice) (simp add: id')
  finally have settle: "replace_by_id ?i ?saved ?d1 = Inr ?d2" .
  have res: "saveEdit cfg role t1 t2 remote (r, e) form s = Inr ?s2"
    by (simp add: saveEdit_def beg api saveEdit_settle_def settle)
  have objs2: "Undefined \<notin> set ?d2" using objs by auto
  let ?F = "\<lambda>x. if opt_id x = ?i then Some ?e' else x"
  let ?cs = "map (\<lambda>x. Some (snd x)) ?st"
  have "distinct (map opt_id ?cs)" using dist by (simp add: o_def)
  moreover have "findIndex (\<lambda>x. opt_id x = ?i) ?cs = Some j"
    using fi' by (simp add: findIndex_map)
  ultimately have "map ?F ?cs = ?cs[j := Some ?e']"
    by (rule replace_at_index)
  then have st': "map (\<lambda>x. Some (snd x)) (?st[j := (Suc ?n, ?e')]) = map ?F ?cs"
    by (simp add: map_update)
  have "shown ?s2 = mset (map contents ?d2)"
    by (simp add: shown_def)
  also have "\<dots> = mset (map ?F (map contents (data s)))"
    by (rule arg_cong [OF contents_replace])
  also have "\<dots> = image_mset ?F (shown s)"
    by (simp only: shown_def mset_map)
  also have "\<dots> = image_mset ?F (mset ?cs)"
    by (simp only: eq stored_def)
  also have "\<dots> = mset (map ?F ?cs)"
    by (simp only: mset_map)
  also have "\<dots> = mset (map (\<lambda>x. Some (snd x)) (?st[j := (Suc ?n, ?e')]))"
    by (simp only: st')
  also have "\<dots> = stored ?s2"
    by (simp add: stored_def)
  finally have eq2: "shown ?s2 = stored ?s2" .
  have "(map ?g ?st) ! j = ?i" using lt at xe by simp
  then have ids: "map ?g (?st[j := (Suc ?n, ?e')]) = map ?g ?st"
    by (simp add: map_update id' list_update_same_conv lt)
  have dist2: "distinct (map ?g (?st[j := (Suc ?n, ?e')]))"
    by (simp only: ids dist)
  have "list_all is_Num (map ?g ?st)" using nums by (simp add: list_all_iff)
  then have "list_all is_Num (map ?g (?st[j := (Suc ?n, ?e')]))" by (simp only: ids)
  then have nums2: "list_all (\<lambda>x. is_Num (?g x)) (?st[j := (Suc ?n, ?e')])"
    by (simp add: list_all_iff)
  have "list_all (allocated (Suc (Suc ?n))) (data s)"
    using alloc by (rule list_all_allocated_mono) simp
  then have alloc2: "list_all (allocated (Suc (Suc ?n))) ?d2"
    by (auto simp: list_all_iff)
  have "in_sync ?s2"
    using objs2 eq2 dist2 nums2 alloc2 by (simp add: in_sync_def refs_allocated_def)
  with res show ?thesis by blast
qed

lemma mset_contents_filter:
  "mset (map contents (filter (\<lambda>c. id_of c \<noteq> i) d)) = filter_mset (\<lambda>x. opt_id x \<noteq> i) (mset (map contents d))"
  unfolding contents_remove by simp

lemma delete_keeps_sync:
  assumes mock: "useMock cfg" and sync: "in_sync s" and row: "Obj r e \<in> set (data s)"
  shows "\<exists>s'. deleteExt cfg role t1 t2 remote True (ext_id e) s = Inr s' \<and> in_sync s'"
proof -
  let ?i = "ext_id e" and ?n = "next_ref s" and ?st = "MOCK_EXTENSIONS s"
  let ?g = "\<lambda>x. ext_id (snd x)"
  from sync have alloc: "list_all (allocated ?n) (data s)"
    and nums: "list_all (\<lambda>x. is_Num (?g x)) ?st"
    and dist: "distinct (map ?g ?st)"
    and objs: "Undefined \<notin> set (data s)" and eq: "shown s = stored s"
    by (simp_all add: in_sync_def refs_allocated_def)
  from shown_row_stored [OF eq row] obtain x where x: "x \<in> set ?st" and xe: "snd x = e" by blast
  from stored_row_found [OF nums dist x] xe obtain j
    where num: "is_Num ?i"
      and fi: "findIndex (\<lambda>y. strict_eq (?g y) ?i) ?st = Some j"
      and fi': "findIndex (\<lambda>y. ?g y = ?i) ?st = Some j"
    by auto
  have seq: "\<And>a. strict_eq a ?i = (a = ?i)" by (rule strict_eq_Num [OF num])
  let ?d1 = "filter (\<lambda>c. id_of c \<noteq> ?i) (data s)"
  let ?st' = "filter (\<lambda>x. ?g x \<noteq> ?i) ?st"
  let ?s1 = "s\<lparr>data := ?d1, audit := pushAudit role t1 (delete_entry ?i) (audit s)\<rparr>"
  let ?s2 = "s\<lparr>MOCK_EXTENSIONS := ?st', data := ?d1,
               audit := pushAudit role t1 (delete_entry ?i) (audit s)\<rparr>"
  have beg: "deleteExt_begin role t1 ?i s = Inr ?s1"
    by (simp add: deleteExt_begin_def remove_by_id_objs [OF objs] seq)
  have cut: "take j ?st @ drop (Suc j) ?st = ?st'"
    using remove_at_index [OF dist fi'] by simp
  have api: "apiDeleteExtension cfg ?i remote ?s1 = (Resolved (), ?s1\<lparr>MOCK_EXTENSIONS := ?st'\<rparr>)"
    using mock by (simp add: apiDeleteExtension_def fi cut)
  have res: "deleteExt cfg role t1 t2 remote True ?i s = Inr ?s2"
    by (simp add: deleteExt_def beg api deleteExt_settle_def)
  have "map (\<lambda>x. Some (snd x)) ?st' = filter (\<lambda>x. opt_id x \<noteq> ?i) (map (\<lambda>x. Some (snd x)) ?st)"
    by (simp add: filter_map o_def)
  then have "stored ?s2 = filter_mset (\<lambda>x. opt_id x \<noteq> ?i) (stored s)"
    by (simp add: stored_def)
  moreover have "shown ?s2 = filter_mset (\<lambda>x. opt_id x \<noteq> ?i) (shown s)"
    using mset_contents_filter [of ?i "data s"] by (simp add: shown_def)
  ultimately have eq2: "shown ?s2 = stored ?s2" by (simp add: eq)
  have dist2: "distinct (map ?g ?st')" using dist by (rule distinct_map_filter)
  have nums2: "list_all (\<lambda>x. is_Num (?g x)) ?st'" using nums by (simp add: list_all_iff)
  have alloc2: "list_all (allocated ?n) ?d1" using alloc by (simp add: list_all_iff)
  have objs2: "Undefined \<notin> set ?d1" using objs by simp
  have "in_sync ?s2"
    using objs2 eq2 dist2 nums2 alloc2 by (simp add: in_sync_def refs_allocated_def)
  with res show ?thesis by blast
qed

text \<open>
  As long as the store is not empty when an extension is created, every operation of the
  panel in mock mode succeeds and leaves the list showing exactly the records of the store.
\<close>

lemma panel_step_keeps_sync:
  assumes mock: "useMock cfg" and sync: "in_sync s"
      and guard: "is_New x \<longrightarrow> MOCK_EXTENSIONS s \<noteq> []"
  shows "\<exists>s'. panel_step cfg role now remote x s = Inr s' \<and> in_sync s'"
proof (cases x)
  case (New rnd changes)
  with guard have ne: "MOCK_EXTENSIONS s \<noteq> []" by simp
  from create_keeps_sync [OF mock sync ne modal_form_id(2)] New show ?thesis by simp
next
  case (Edit k changes)
  show ?thesis
  proof (cases "k < length (data s)")
    case True
    from sync have "Undefined \<notin> set (data s)" by (simp add: in_sync_def)
    with True obtain r e where row: "data s ! k = Obj r e"
      by (cases "data s ! k") (auto dest: nth_mem)
    with True have mem: "Obj r e \<in> set (data s)" by (metis nth_mem)
    from edit_keeps_sync [OF mock sync mem modal_form_id(1)] Edit True row show ?thesis by simp
  next
    case False
    with Edit sync show ?thesis by simp
  qed
next
  case (Delete k)
  show ?thesis
  proof (cases "k < length (data s)")
    case True
    from sync have "Undefined \<notin> set (data s)" by (simp add: in_sync_def)
    with True obtain r e where row: "data s ! k = Obj r e"
      by (cases "data s ! k") (auto dest: nth_mem)
    with True have mem: "Obj r e \<in> set (data s)" by (metis nth_mem)
    from delete_keeps_sync [OF mock sync mem] Delete True row show ?thesis by simp
  next
    case False
    with Delete sync show ?thesis by simp
  qed
qed

lemma panel_run_keeps_sync:
  assumes mock: "useMock cfg"
  shows "in_sync s \<Longrightarrow> store_nonempty_at_new cfg role xs s \<Longrightarrow>
         \<exists>s'. panel_run cfg role xs s = Inr s' \<and> in_sync s' \<and> shown s' = stored s'"
proof (induction xs arbitrary: s)
  case Nil
  then show ?case by (simp add: in_sync_def)
next
  case (Cons a xs)
  obtain now remote x where a: "a = (now, remote, x)" by (cases a) auto
  from Cons.prems(2) have guard: "is_New x \<longrightarrow> MOCK_EXTENSIONS s \<noteq> []" by (simp add: a)
  from panel_step_keeps_sync [OF mock Cons.prems(1) guard] obtain s1
    where s1: "panel_step cfg role now remote x s = Inr s1" and sync1: "in_sync s1" by blast
  from Cons.prems(2) s1 have "store_nonempty_at_new cfg role xs s1" by (simp add: a)
  from Cons.IH [OF sync1 this] s1 show ?case by (simp add: a)
qed

lemma loaded_state_in_sync: "in_sync loaded_state"
  by (simp add: in_sync_def loaded_state_eq shown_def stored_def refs_allocated_def
      MOCK_EXTENSIONS_init_def)

lemmas run_defs = panel_step.simps panel_run.simps createExt_def createExt_begin_def createExt_settle_def
  deleteExt_def deleteExt_begin_def deleteExt_settle_def apiCreateExtension_def apiDeleteExtension_def
  placeholder_def ExtensionModal_form_def default_form_def empty_object_def spread_def override_def
  Math_max_def strict_eq_def pushAudit_def stamp_def mock_cfg_def Let_def

lemma run5:
  "panel_run mock_cfg ''admin'' (take 5 empty_store_run) loaded_state =
     Inr \<lparr>MOCK_EXTENSIONS = [(7, lobby_row), (9, lab_row)], next_ref = 10,
          data = [Obj 9 lab_row, Obj 7 lobby_row],
          audit = map (\<lambda>(t, a, d). \<lparr>entry_action = a, entry_detail = d, ts = t, user = ''admin''\<rparr>)
            [(5, ''create_extension'', ''Lab ()''), (4, ''create_extension'', ''Lobby ()''),
             (3, ''delete_extension'', ''1003''), (2, ''delete_extension'', ''1002''),
             (1, ''delete_extension'', ''1001'')]\<rparr>"
  by (simp add: empty_store_run_def loaded_state_eq MOCK_EXTENSIONS_init_def run_defs
      lobby_row_def lab_row_def create_entry_def delete_entry_def string_of_int_def digits.simps)

text \<open>
  Claim C1 says that after every successful operation in mock mode the list holds exactly
  the records of the store. That fails once the store has been emptied:
  \<^verbatim>\<open>Math.max()\<close> of no id is \<^verbatim>\<open>-Infinity\<close>, and so is \<^verbatim>\<open>-Infinity + 1\<close>, so the
  two extensions created next both get the id \<^verbatim>\<open>-Infinity\<close>. Deleting one of them removes
  both rows from the list (every row with that id) and one record from the store (the first
  with that id): the list is empty and the store still holds an extension.
\<close>

theorem empty_store_ids_collide:
  "(case panel_run mock_cfg ''admin'' (take 5 empty_store_run) loaded_state of
      Inl _ \<Rightarrow> False
    | Inr s \<Rightarrow> data s = [Obj 9 lab_row, Obj 7 lobby_row]
        \<and> MOCK_EXTENSIONS s = [(7, lobby_row), (9, lab_row)]
        \<and> ext_id lobby_row = Some NegInfinity \<and> ext_id lab_row = Some NegInfinity
        \<and> shown s = stored s)
   \<and> (case panel_run mock_cfg ''admin'' empty_store_run loaded_state of
         Inl _ \<Rightarrow> False
       | Inr s \<Rightarrow> data s = [] \<and> MOCK_EXTENSIONS s = [(9, lab_row)] \<and> shown s \<noteq> stored s)"
proof -
  have six: "empty_store_run = take 5 empty_store_run @ [(6, Resolved None, Delete 0)]"
    by (simp add: empty_store_run_def)
  have run_append: "\<And>xs ys s. panel_run mock_cfg ''admin'' (xs @ ys) s =
      (case panel_run mock_cfg ''admin'' xs s of Inl e \<Rightarrow> Inl e | Inr s' \<Rightarrow> panel_run mock_cfg ''admin'' ys s')"
  proof -
    fix xs ys s
    show "panel_run mock_cfg ''admin'' (xs @ ys) s =
      (case panel_run mock_cfg ''admin'' xs s of Inl e \<Rightarrow> Inl e | Inr s' \<Rightarrow> panel_run mock_cfg ''admin'' ys s')"
      by (induction xs arbitrary: s) (auto split: sum.splits)
  qed
  have ids: "ext_id lobby_row = Some NegInfinity" "ext_id lab_row = Some NegInfinity"
    by (simp_all add: lobby_row_def lab_row_def)
  have rows: "lobby_row \<noteq> lab_row"
    by (simp add: lobby_row_def lab_row_def default_form_def empty_object_def)
  have last: "panel_run mock_cfg ''admin'' empty_store_run loaded_state =
      Inr \<lparr>MOCK_EXTENSIONS = [(9, lab_row)], next_ref = 10, data = [],
          audit = map (\<lambda>(t, a, d). \<lparr>entry_action = a, entry_detail = d, ts = t, user = ''admin''\<rparr>)
            [(6, ''delete_extension'', ''-Infinity''),
             (5, ''create_extension'', ''Lab ()''), (4, ''create_extension'', ''Lobby ()''),
             (3, ''delete_extension'', ''1003''), (2, ''delete_extension'', ''1002''),
             (1, ''delete_extension'', ''1001'')]\<rparr>"
    by (subst six, simp only: run_append run5)
       (simp add: ids deleteExt_def deleteExt_begin_def deleteExt_settle_def apiDeleteExtension_def
          strict_eq_def pushAudit_def stamp_def mock_cfg_def delete_entry_def)
  show ?thesis
    using rows by (simp add: run5 last ids shown_def stored_def)
qed

end
